theory Spec2Isabelle
  imports Complex_Main "HOL-Library.Multiset" "HOL-Library.Option_ord"
begin

section \<open>Numeric values\<close>

text \<open>
  A Go \<^verbatim>\<open>float64\<close> is modelled as a real number or the reserved
  not-a-number value; the two infinities are not modelled. Every comparison
  with \<open>NaN\<close> is false, as in IEEE 754. The four operations below are the
  exact ones; a division by zero (which the code under study never performs:
  every divisor is a positive length or the constant 100) gives \<open>NaN\<close>.
  The rounding of a result to the nearest \<^verbatim>\<open>float64\<close> is the function
  \<open>r64\<close> of the next subsection. It is applied in \<^verbatim>\<open>Percentile\<close>, where the
  rank is the floor of a product and a rounding error of one unit in the last
  place changes the element returned. The sums, means and deviations of the
  other primitives are kept exact, and a decimal constant of the code stands
  for the number it writes: this is an idealisation, under which the values
  stated below are either computed without rounding error in \<^verbatim>\<open>float64\<close>
  too, or enter comparisons with margins far beyond the rounding error.
\<close>

datatype float64 = NaN | Fin real

fun fadd :: "float64 \<Rightarrow> float64 \<Rightarrow> float64" where
  "fadd (Fin a) (Fin b) = Fin (a + b)"
| "fadd _ _ = NaN"

fun fsub :: "float64 \<Rightarrow> float64 \<Rightarrow> float64" where
  "fsub (Fin a) (Fin b) = Fin (a - b)"
| "fsub _ _ = NaN"

fun fmul :: "float64 \<Rightarrow> float64 \<Rightarrow> float64" where
  "fmul (Fin a) (Fin b) = Fin (a * b)"
| "fmul _ _ = NaN"

fun fdiv :: "float64 \<Rightarrow> float64 \<Rightarrow> float64" where
  "fdiv (Fin a) (Fin b) = (if b = 0 then NaN else Fin (a / b))"
| "fdiv _ _ = NaN"

fun flt :: "float64 \<Rightarrow> float64 \<Rightarrow> bool" where
  "flt (Fin a) (Fin b) = (a < b)"
| "flt _ _ = False"

fun fle :: "float64 \<Rightarrow> float64 \<Rightarrow> bool" where
  "fle (Fin a) (Fin b) = (a \<le> b)"
| "fle _ _ = False"

definition fgt :: "float64 \<Rightarrow> float64 \<Rightarrow> bool" where
  "fgt a b = flt b a"

fun fabs :: "float64 \<Rightarrow> float64" where
  "fabs (Fin a) = Fin \<bar>a\<bar>"
| "fabs NaN = NaN"

fun fsqrt :: "float64 \<Rightarrow> float64" where
  "fsqrt (Fin a) = (if a < 0 then NaN else Fin (sqrt a))"
| "fsqrt NaN = NaN"

text \<open>
  \<^verbatim>\<open>float64(n)\<close> for a length \<open>n\<close>. The conversion is exact below
  \<open>2 ^ 53\<close>, and no slice is that long.
\<close>

definition float64_of_nat :: "nat \<Rightarrow> float64" where
  "float64_of_nat n = Fin (real n)"

text \<open>
  \<^verbatim>\<open>int(math.Floor(x))\<close>. The conversion of \<open>NaN\<close> to an integer is
  implementation-dependent in Go; the value below is the one of amd64.
\<close>

fun int_floor :: "float64 \<Rightarrow> int" where
  "int_floor (Fin a) = \<lfloor>a\<rfloor>"
| "int_floor NaN = - (2 ^ 63)"

subsection \<open>Rounding\<close>

text \<open>
  \<open>round64 x\<close> is the \<^verbatim>\<open>float64\<close> nearest to the real \<open>x\<close>, ties to
  the even mantissa: \<open>x\<close> is written as a multiple of the unit in its last
  place, \<open>pow2 e\<close>, and the multiple is rounded to an integer. For \<open>x\<close> in
  the binade \<open>[2 ^ b, 2 ^ (b + 1))\<close> the mantissa has 53 bits, so \<open>e\<close> is
  \<open>b - 52\<close>; it is not below \<open>-1074\<close>, the exponent of the subnormal
  numbers. \<open>expo x\<close> is the exponent \<open>b\<close> of a positive \<open>x\<close>, found by
  halving or doubling. Overflow to an infinity is not modelled.
\<close>

definition pow2 :: "int \<Rightarrow> real" where
  "pow2 e = (if 0 \<le> e then 2 ^ nat e else 1 / 2 ^ nat (- e))"

function expo_ge :: "real \<Rightarrow> int" where
  "expo_ge x = (if x < 2 then 0 else expo_ge (x / 2) + 1)"
  by pat_completeness auto
termination
proof (relation "measure (\<lambda>x. nat \<lceil>x\<rceil>)")
  show "wf (measure (\<lambda>x::real. nat \<lceil>x\<rceil>))" by simp
next
  fix x :: real
  assume "\<not> x < 2"
  then have "\<lceil>x / 2\<rceil> < \<lceil>x\<rceil>" "0 < \<lceil>x\<rceil>" by linarith+
  then show "(x / 2, x) \<in> measure (\<lambda>x. nat \<lceil>x\<rceil>)" by simp
qed

function expo_lt :: "real \<Rightarrow> int" where
  "expo_lt x = (if x \<le> 0 \<or> 1 \<le> x then 0 else expo_lt (2 * x) - 1)"
  by pat_completeness auto
termination
proof (relation "measure (\<lambda>x. nat \<lceil>1 / x\<rceil>)")
  show "wf (measure (\<lambda>x::real. nat \<lceil>1 / x\<rceil>))" by simp
next
  fix x :: real
  assume "\<not> (x \<le> 0 \<or> 1 \<le> x)"
  then have x: "0 < x" "x < 1" by simp_all
  define y where "y = 1 / x"
  have y: "1 < y" using x by (simp add: y_def)
  have e: "1 / (2 * x) = y / 2" by (simp add: y_def)
  have "\<lceil>y / 2\<rceil> < \<lceil>y\<rceil>"
  proof (cases "y < 2")
    case True
    then have "\<lceil>y / 2\<rceil> \<le> 1" by (simp add: ceiling_le_iff)
    moreover have "1 < \<lceil>y\<rceil>" using y by (simp add: less_ceiling_iff)
    ultimately show ?thesis by (rule le_less_trans)
  next
    case False
    then show ?thesis by linarith
  qed
  moreover have "0 < \<lceil>y\<rceil>" using y by (simp add: less_ceiling_iff)
  ultimately have "\<lceil>y / 2\<rceil> < \<lceil>y\<rceil>" "0 < \<lceil>y\<rceil>" by simp_all
  then show "(2 * x, x) \<in> measure (\<lambda>x. nat \<lceil>1 / x\<rceil>)"
    unfolding in_measure e by (simp add: y_def)
qed

declare expo_ge.simps [simp del]

declare expo_lt.simps [simp del]

definition expo :: "real \<Rightarrow> int" where
  "expo x = (if 1 \<le> x then expo_ge x else expo_lt x)"

definition round_even :: "real \<Rightarrow> int" where
  "round_even r =
     (let f = \<lfloor>r\<rfloor> in
      if r - of_int f < 1 / 2 then f
      else if 1 / 2 < r - of_int f then f + 1
      else if even f then f else f + 1)"

definition round64 :: "real \<Rightarrow> real" where
  "round64 x =
     (if x = 0 then 0
      else let e = max (expo \<bar>x\<bar> - 52) (- 1074)
           in of_int (round_even (x / pow2 e)) * pow2 e)"

fun r64 :: "float64 \<Rightarrow> float64" where
  "r64 (Fin a) = Fin (round64 a)"
| "r64 NaN = NaN"

section \<open>Errors and panics\<close>

text \<open>
  Modelled from the spec: the package-level error values \<^verbatim>\<open>ErrEmptyInput\<close>
  and \<^verbatim>\<open>ErrBounds\<close> are declared in a file that is not part of the sources at
  hand; they are the EmptyInput and OutOfRangeParameter errors of the
  specification. \<open>ErrorsNew msg\<close> is an error value made on the spot by
  \<^verbatim>\<open>errors.New(msg)\<close>: it is equal to no package-level error.
\<close>

datatype error = ErrEmptyInput | ErrBounds | ErrorsNew string

text \<open>
  A run-time panic of Go (an index out of range) and the process exit of
  \<^verbatim>\<open>log.Fatal\<close>.
\<close>

datatype failure = IndexOutOfRange int nat | LogFatal string

section \<open>Sorting\<close>

text \<open>
  \<^verbatim>\<open>sort.Float64s\<close> sorts in increasing order with the not-a-number values
  first. The key below puts \<open>NaN\<close> before every number; it is injective, so the
  sorted sequence is determined by the values alone.
\<close>

fun float_key :: "float64 \<Rightarrow> real option" where
  "float_key NaN = None"
| "float_key (Fin a) = Some a"

definition sort_Float64s :: "float64 list \<Rightarrow> float64 list" where
  "sort_Float64s xs = sort_key float_key xs"

text \<open>
  \<^verbatim>\<open>sort.Slice(s, less)\<close> promises no stability. The model is the insertion sort
  that the Go library itself runs on slices of at most twelve elements: each
  element is moved left while \<open>less\<close> holds against its left neighbour. The
  sorted prefix is kept reversed. On a longer slice the library sorts otherwise,
  and elements that \<open>less\<close> does not order may come out in another order than
  here; where the elements are strictly ordered by \<open>less\<close>, as the records of
  a series with increasing timestamps are, the result is the same.
\<close>

fun insert_back :: "('a \<Rightarrow> 'a \<Rightarrow> bool) \<Rightarrow> 'a \<Rightarrow> 'a list \<Rightarrow> 'a list" where
  "insert_back lt x [] = [x]"
| "insert_back lt x (y # ys) =
     (if lt x y then y # insert_back lt x ys else x # y # ys)"

definition sort_Slice :: "('a \<Rightarrow> 'a \<Rightarrow> bool) \<Rightarrow> 'a list \<Rightarrow> 'a list" where
  "sort_Slice lt xs = rev (foldl (\<lambda>acc x. insert_back lt x acc) [] xs)"

section \<open>Statistical primitives (stats.go)\<close>

text \<open>
  A Go result \<^verbatim>\<open>(float64, error)\<close> is a pair of the value and the optional
  error; \<open>None\<close> is \<^verbatim>\<open>nil\<close>. Callers in the package often drop the error and
  use the value.
\<close>

type_synonym result = "float64 \<times> error option"

definition Sum_go :: "float64 list \<Rightarrow> result" where
  "Sum_go input =
     (if length input = 0 then (NaN, Some ErrEmptyInput)
      else (foldl fadd (Fin 0) input, None))"

definition Mean :: "float64 list \<Rightarrow> result" where
  "Mean input =
     (if length input = 0 then (NaN, Some ErrEmptyInput)
      else (fdiv (fst (Sum_go input)) (float64_of_nat (length input)), None))"

text \<open>The loop of \<^verbatim>\<open>Min\<close> and of \<^verbatim>\<open>Max\<close> over the elements after the first.\<close>

fun min_loop :: "float64 \<Rightarrow> float64 list \<Rightarrow> float64" where
  "min_loop m [] = m"
| "min_loop m (x # xs) = min_loop (if flt x m then x else m) xs"

fun max_loop :: "float64 \<Rightarrow> float64 list \<Rightarrow> float64" where
  "max_loop m [] = m"
| "max_loop m (x # xs) = max_loop (if fgt x m then x else m) xs"

definition Min_go :: "float64 list \<Rightarrow> result" where
  "Min_go input =
     (case input of
        [] \<Rightarrow> (NaN, Some ErrEmptyInput)
      | x # xs \<Rightarrow> (min_loop x xs, None))"

definition Max_go :: "float64 list \<Rightarrow> result" where
  "Max_go input =
     (case input of
        [] \<Rightarrow> (NaN, Some ErrEmptyInput)
      | x # xs \<Rightarrow> (max_loop x xs, None))"

definition StdDev :: "float64 list \<Rightarrow> result" where
  "StdDev data =
     (let n = length data in
      if n = 0 then (NaN, Some (ErrorsNew ''empty slice''))
      else
        let sum = foldl fadd (Fin 0) data;
            mean = fdiv sum (float64_of_nat n);
            sqDiffSum = foldl (\<lambda>acc v. fadd acc (fmul (fsub v mean) (fsub v mean))) (Fin 0) data
        in (fsqrt (fdiv sqDiffSum (float64_of_nat n)), None))"

subsection \<open>Slices in memory\<close>

text \<open>
  \<^verbatim>\<open>Median\<close> and \<^verbatim>\<open>Percentile\<close> sort, so what they do to the memory of
  the caller matters. The memory maps addresses to values. A slice is the
  address of its first element and a length, so two slices may share elements,
  as \<^verbatim>\<open>x\<close> and \<^verbatim>\<open>x[:2]\<close> do; the capacity of a slice plays no role
  here, since nothing appends to a slice of the caller. \<open>next_free\<close> is the
  first address not yet allocated.
\<close>

type_synonym addr = nat

record slice =
  ptr :: addr
  len :: nat

record store =
  mem :: "addr \<Rightarrow> float64"
  next_free :: addr

text \<open>The elements \<^verbatim>\<open>s[0], ..., s[len(s)-1]\<close> of a slice, and \<^verbatim>\<open>s[i]\<close> for \<open>i < len s\<close>.\<close>

definition elems :: "store \<Rightarrow> slice \<Rightarrow> float64 list" where
  "elems st s = map (mem st) [ptr s..<ptr s + len s]"

definition elem_at :: "store \<Rightarrow> slice \<Rightarrow> nat \<Rightarrow> float64" where
  "elem_at st s i = mem st (ptr s + i)"

text \<open>The sub-slice \<^verbatim>\<open>s[i:j]\<close>, for \<open>i \<le> j \<le> len s\<close>: it shares the elements of \<open>s\<close>.\<close>

definition reslice :: "slice \<Rightarrow> nat \<Rightarrow> nat \<Rightarrow> slice" where
  "reslice s i j = \<lparr>ptr = ptr s + i, len = j - i\<rparr>"

text \<open>Writing the values \<open>xs\<close> from the address \<open>a\<close> on.\<close>

definition write_at :: "store \<Rightarrow> addr \<Rightarrow> float64 list \<Rightarrow> store" where
  "write_at st a xs =
     st\<lparr>mem := (\<lambda>i. if a \<le> i \<and> i < a + length xs then xs ! (i - a) else mem st i)\<rparr>"

text \<open>
  \<^verbatim>\<open>sort.Float64s(s)\<close> overwrites the elements of \<open>s\<close> with their sorted
  sequence; \<^verbatim>\<open>append([]float64(nil), x...)\<close>, for a non-empty \<open>x\<close>, allocates
  fresh memory and copies the elements there.
\<close>

definition sort_in_place :: "store \<Rightarrow> slice \<Rightarrow> store" where
  "sort_in_place st s = write_at st (ptr s) (sort_Float64s (elems st s))"

definition alloc_copy :: "store \<Rightarrow> float64 list \<Rightarrow> store \<times> slice" where
  "alloc_copy st xs =
     (write_at (st\<lparr>next_free := next_free st + length xs\<rparr>) (next_free st) xs,
      \<lparr>ptr = next_free st, len = length xs\<rparr>)"

definition Median :: "store \<Rightarrow> slice \<Rightarrow> store \<times> result" where
  "Median st input =
     (let st' = sort_in_place st input;
          l = len input
      in if l = 0 then (st', (NaN, Some ErrEmptyInput))
         else if l mod 2 = 0
           then (st', (fst (Mean (elems st' (reslice input (l div 2 - 1) (l div 2 + 1)))), None))
           else (st', (elem_at st' input (l div 2), None)))"

definition Percentile :: "store \<Rightarrow> slice \<Rightarrow> float64 \<Rightarrow> store \<times> result" where
  "Percentile st x p =
     (let n = len x in
      if n = 0 then (st, (NaN, Some ErrEmptyInput))
      else if fle p (Fin 0) \<or> fgt p (Fin 100) then (st, (NaN, Some ErrBounds))
      else
        let (st1, cp) = alloc_copy st (elems st x);
            st2 = sort_in_place st1 cp;
            k = int_floor (r64 (fmul (r64 (fdiv p (Fin 100))) (float64_of_nat n)))
        in if k < 1 then (st2, (elem_at st2 cp 0, None))
           else if k \<ge> int n then (st2, (elem_at st2 cp (n - 1), None))
           else (st2, (elem_at st2 cp (nat (k - 1)), None)))"

text \<open>
  The memory with nothing allocated, and the memory and the slice after the
  allocation of one slice with the elements \<open>xs\<close>.
\<close>

definition empty_store :: store where
  "empty_store = \<lparr>mem = (\<lambda>_. Fin 0), next_free = 0\<rparr>"

definition store_of :: "float64 list \<Rightarrow> store" where
  "store_of xs = fst (alloc_copy empty_store xs)"

definition slice_of :: "float64 list \<Rightarrow> slice" where
  "slice_of xs = snd (alloc_copy empty_store xs)"

section \<open>Data model\<close>

text \<open>
  An instant (\<^verbatim>\<open>time.Time\<close>) is the number of nanoseconds since the zero time
  of Go, 1 January of year 1, 00:00:00 UTC, which is the origin that
  \<^verbatim>\<open>Time.Truncate\<close> counts from. The range limit of \<^verbatim>\<open>time.Time\<close>
  (about 292 billion years) is not modelled. A \<^verbatim>\<open>time.Duration\<close> is a
  signed 64-bit count of nanoseconds.
\<close>

type_synonym Time = int
type_synonym Duration = int

datatype StatusCode = StOK | StMissing | StOutlier | StInvalid

record DataUnit =
  Chron :: Time
  Meas :: float64
  Dchron :: Duration
  Dmeas :: float64
  Status :: StatusCode

text \<open>
  The embedded \<^verbatim>\<open>BasicStats\<close> of a \<^verbatim>\<open>TimeSeries\<close> is left out: no operation
  below reads or writes it.
\<close>

record TimeSeries =
  Name :: string
  Comment :: string
  DataSeries :: "DataUnit list"

text \<open>The zero values \<^verbatim>\<open>var ts TimeSeries\<close> and \<^verbatim>\<open>DataUnit{Chron: c, Meas: m}\<close>.\<close>

definition zero_TimeSeries :: TimeSeries where
  "zero_TimeSeries = \<lparr>Name = [], Comment = [], DataSeries = []\<rparr>"

definition mk_DataUnit :: "Time \<Rightarrow> float64 \<Rightarrow> DataUnit" where
  "mk_DataUnit c m = \<lparr>Chron = c, Meas = m, Dchron = 0, Dmeas = Fin 0, Status = StOK\<rparr>"

definition AddDataUnit :: "TimeSeries \<Rightarrow> DataUnit list \<Rightarrow> TimeSeries" where
  "AddDataUnit ts dus = ts\<lparr>DataSeries := DataSeries ts @ dus\<rparr>"

definition SortChronAsc :: "TimeSeries \<Rightarrow> TimeSeries" where
  "SortChronAsc ts = ts\<lparr>DataSeries := sort_Slice (\<lambda>a b. Chron a < Chron b) (DataSeries ts)\<rparr>"

definition SortMeasAsc :: "TimeSeries \<Rightarrow> TimeSeries" where
  "SortMeasAsc ts = ts\<lparr>DataSeries := sort_Slice (\<lambda>a b. flt (Meas a) (Meas b)) (DataSeries ts)\<rparr>"

definition MeasToArr :: "TimeSeries \<Rightarrow> float64 list" where
  "MeasToArr ts = map Meas (DataSeries ts)"

section \<open>Outlier detection (outliers.go)\<close>

subsection \<open>Bound rejection\<close>

fun outbounds_loop ::
  "float64 \<Rightarrow> float64 \<Rightarrow> DataUnit list \<Rightarrow> TimeSeries \<Rightarrow> TimeSeries \<Rightarrow> TimeSeries \<times> TimeSeries" where
  "outbounds_loop mn mx [] tsout tsrej = (tsout, tsrej)"
| "outbounds_loop mn mx (dataunit # rest) tsout tsrej =
     (if fgt (Meas dataunit) mx \<or> flt (Meas dataunit) mn
      then outbounds_loop mn mx rest tsout (AddDataUnit tsrej [dataunit\<lparr>Status := StOutlier\<rparr>])
      else outbounds_loop mn mx rest (AddDataUnit tsout [dataunit\<lparr>Status := StOK\<rparr>]) tsrej)"

text \<open>
  \<^verbatim>\<open>RemoveOutbounds\<close> sorts its receiver in place, twice; the model returns the
  receiver as it is left, then the cleaned and the rejected series.
\<close>

definition RemoveOutbounds ::
  "TimeSeries \<Rightarrow> float64 \<Rightarrow> float64 \<Rightarrow> string \<Rightarrow> TimeSeries \<times> TimeSeries \<times> TimeSeries" where
  "RemoveOutbounds tsin mn mx comment =
     (let tsin1 = SortMeasAsc tsin;
          (tsout, tsrej) = outbounds_loop mn mx (DataSeries tsin1) zero_TimeSeries zero_TimeSeries;
          tsin2 = SortChronAsc tsin1;
          tsout1 = SortChronAsc tsout;
          tsrej1 = SortChronAsc tsrej
      in (tsin2,
          tsout1\<lparr>Name := Name tsin2 @ '' Cleaned''\<rparr>,
          tsrej1\<lparr>Name := Name tsin2 @ '' Removed''\<rparr>))"

subsection \<open>Peirce's criterion\<close>

definition Rtable_rows :: "real list list" where
  "Rtable_rows =
    [
     [1.196, 0, 0, 0, 0, 0, 0, 0, 0],
     [1.383, 1.078, 0, 0, 0, 0, 0, 0, 0],
     [1.509, 1.2, 0, 0, 0, 0, 0, 0, 0],
     [1.61, 1.299, 1.099, 0, 0, 0, 0, 0, 0],
     [1.693, 1.382, 1.187, 1.022, 0, 0, 0, 0, 0],
     [1.763, 1.453, 1.261, 1.109, 0, 0, 0, 0, 0],
     [1.824, 1.515, 1.324, 1.178, 1.045, 0, 0, 0, 0],
     [1.878, 1.57, 1.38, 1.237, 1.114, 0, 0, 0, 0],
     [1.925, 1.619, 1.43, 1.289, 1.172, 1.059, 0, 0, 0],
     [1.969, 1.663, 1.475, 1.336, 1.221, 1.118, 1.009, 0, 0],
     [2.007, 1.704, 1.516, 1.379, 1.266, 1.167, 1.07, 0, 0],
     [2.043, 1.741, 1.554, 1.417, 1.307, 1.21, 1.12, 1.026, 0],
     [2.076, 1.775, 1.589, 1.453, 1.344, 1.249, 1.164, 1.078, 0],
     [2.106, 1.807, 1.622, 1.486, 1.378, 1.285, 1.202, 1.122, 1.039],
     [2.134, 1.836, 1.652, 1.517, 1.409, 1.318, 1.237, 1.161, 1.084],
     [2.161, 1.864, 1.68, 1.546, 1.438, 1.348, 1.268, 1.195, 1.123],
     [2.185, 1.89, 1.707, 1.573, 1.466, 1.377, 1.298, 1.226, 1.158],
     [2.209, 1.914, 1.732, 1.599, 1.492, 1.404, 1.326, 1.255, 1.19],
     [2.23, 1.938, 1.756, 1.623, 1.517, 1.429, 1.352, 1.282, 1.218],
     [2.251, 1.96, 1.779, 1.646, 1.54, 1.452, 1.376, 1.308, 1.245],
     [2.271, 1.981, 1.8, 1.668, 1.563, 1.475, 1.399, 1.332, 1.27],
     [2.29, 2, 1.821, 1.689, 1.584, 1.497, 1.421, 1.354, 1.293],
     [2.307, 2.019, 1.84, 1.709, 1.604, 1.517, 1.442, 1.375, 1.315],
     [2.324, 2.037, 1.859, 1.728, 1.624, 1.537, 1.462, 1.396, 1.336],
     [2.341, 2.055, 1.877, 1.746, 1.642, 1.556, 1.481, 1.415, 1.356],
     [2.356, 2.071, 1.894, 1.764, 1.66, 1.574, 1.5, 1.434, 1.375],
     [2.371, 2.088, 1.911, 1.781, 1.677, 1.591, 1.517, 1.452, 1.393],
     [2.385, 2.103, 1.927, 1.797, 1.694, 1.608, 1.534, 1.469, 1.411],
     [2.399, 2.118, 1.942, 1.812, 1.71, 1.624, 1.55, 1.486, 1.428],
     [2.412, 2.132, 1.957, 1.828, 1.725, 1.64, 1.567, 1.502, 1.444],
     [2.425, 2.146, 1.971, 1.842, 1.74, 1.655, 1.582, 1.517, 1.459],
     [2.438, 2.159, 1.985, 1.856, 1.754, 1.669, 1.597, 1.532, 1.475],
     [2.45, 2.172, 1.998, 1.87, 1.768, 1.683, 1.611, 1.547, 1.489],
     [2.461, 2.184, 2.011, 1.883, 1.782, 1.697, 1.624, 1.561, 1.504],
     [2.472, 2.196, 2.024, 1.896, 1.795, 1.711, 1.638, 1.574, 1.517],
     [2.483, 2.208, 2.036, 1.909, 1.807, 1.723, 1.651, 1.587, 1.531],
     [2.494, 2.219, 2.047, 1.921, 1.82, 1.736, 1.664, 1.6, 1.544],
     [2.504, 2.23, 2.059, 1.932, 1.832, 1.748, 1.676, 1.613, 1.556],
     [2.514, 2.241, 2.07, 1.944, 1.843, 1.76, 1.688, 1.625, 1.568],
     [2.524, 2.251, 2.081, 1.955, 1.855, 1.771, 1.699, 1.636, 1.58],
     [2.533, 2.261, 2.092, 1.966, 1.866, 1.783, 1.711, 1.648, 1.592],
     [2.542, 2.271, 2.102, 1.976, 1.876, 1.794, 1.722, 1.659, 1.603],
     [2.551, 2.281, 2.112, 1.987, 1.887, 1.804, 1.733, 1.67, 1.614],
     [2.56, 2.29, 2.122, 1.997, 1.897, 1.815, 1.743, 1.681, 1.625],
     [2.568, 2.299, 2.131, 2.006, 1.907, 1.825, 1.754, 1.691, 1.636],
     [2.577, 2.308, 2.14, 2.016, 1.917, 1.835, 1.764, 1.701, 1.646],
     [2.585, 2.317, 2.149, 2.026, 1.927, 1.844, 1.773, 1.711, 1.656],
     [2.592, 2.326, 2.158, 2.035, 1.936, 1.854, 1.783, 1.721, 1.666],
     [2.6, 2.334, 2.167, 2.044, 1.945, 1.863, 1.792, 1.73, 1.675],
     [2.608, 2.342, 2.175, 2.052, 1.954, 1.872, 1.802, 1.74, 1.685],
     [2.615, 2.35, 2.184, 2.061, 1.963, 1.881, 1.811, 1.749, 1.694],
     [2.622, 2.358, 2.192, 2.069, 1.972, 1.89, 1.82, 1.758, 1.703],
     [2.629, 2.365, 2.2, 2.077, 1.98, 1.898, 1.828, 1.767, 1.711],
     [2.636, 2.373, 2.207, 2.085, 1.988, 1.907, 1.837, 1.775, 1.72],
     [2.643, 2.38, 2.215, 2.093, 1.996, 1.915, 1.845, 1.784, 1.729],
     [2.65, 2.387, 2.223, 2.109, 2.012, 1.931, 1.861, 1.8, 1.745],
     [2.656, 2.394, 2.237, 2.116, 2.019, 1.939, 1.869, 1.808, 1.753],
     [2.663, 2.401, 0.223, 2.101, 2.004, 1.923, 1.853, 1.792, 1.737]
    ]"

text \<open>
  Indexing the \<^verbatim>\<open>[58][9]float64\<close> array panics when an index is out of range;
  the panic carries the index and the length.
\<close>

definition Rtable :: "int \<Rightarrow> int \<Rightarrow> failure + float64" where
  "Rtable sampleLength suspects =
     (if sampleLength < 0 \<or> sampleLength \<ge> 58 then Inl (IndexOutOfRange sampleLength 58)
      else if suspects < 0 \<or> suspects \<ge> 9 then Inl (IndexOutOfRange suspects 9)
      else Inr (Fin (Rtable_rows ! nat sampleLength ! nat suspects)))"

record compdeviation =
  initialplace :: int
  dvalue :: float64

text \<open>
  The rejection loop \<^verbatim>\<open>for observedeviation[i].value > s*Rtable(NinTable, i)\<close>:
  the index \<open>i\<close> grows with no test against the length of the slice or the
  width of the table. The call of \<^verbatim>\<open>Rtable\<close> is evaluated before the slice
  is indexed, so a lookup outside the table panics first.
\<close>

function peirce_loop ::
  "int \<Rightarrow> float64 \<Rightarrow> nat \<Rightarrow> compdeviation list \<Rightarrow> int list \<Rightarrow> failure + int list" where
  "peirce_loop NinTable s i obs toremove =
     (case Rtable NinTable (int i) of
        Inl f \<Rightarrow> Inl f
      | Inr r \<Rightarrow>
          if i \<ge> length obs then Inl (IndexOutOfRange (int i) (length obs))
          else if fgt (dvalue (obs ! i)) (fmul s r)
          then peirce_loop NinTable s (Suc i) obs (toremove @ [initialplace (obs ! i)])
          else Inr toremove)"
  by pat_completeness auto
termination
  by (relation "measure (\<lambda>(NinTable, s, i, obs, toremove). length obs - i)") auto

declare peirce_loop.simps [simp del]

definition Peirce :: "float64 list \<Rightarrow> failure + int list" where
  "Peirce data =
     (let avg = fst (Mean data);
          s = fst (StdDev data);
          N = length data;
          observedeviation =
            map (\<lambda>(k, v). \<lparr>initialplace = int k, dvalue = fabs (fsub v avg)\<rparr>)
                (zip [0..<length data] data);
          sorted = sort_Slice (\<lambda>a b. fgt (dvalue a) (dvalue b)) observedeviation;
          NinTable = (if N > 60 then 57 else int N - 3)
      in peirce_loop NinTable s 0 sorted [])"

text \<open>
  The inner loop of \<^verbatim>\<open>PeirceOutlierRemoval\<close> over the indices to remove, for
  the record at position \<open>k\<close>.
\<close>

fun removal_inner :: "int \<Rightarrow> DataUnit \<Rightarrow> int list \<Rightarrow> bool \<Rightarrow> TimeSeries \<Rightarrow> bool \<times> TimeSeries" where
  "removal_inner k du [] flagg tsrej = (flagg, tsrej)"
| "removal_inner k du (vv # rest) flagg tsrej =
     (if k = vv then removal_inner k du rest False (AddDataUnit tsrej [du])
      else removal_inner k du rest flagg tsrej)"

fun removal_loop ::
  "int list \<Rightarrow> (nat \<times> DataUnit) list \<Rightarrow> TimeSeries \<Rightarrow> TimeSeries \<Rightarrow> TimeSeries \<times> TimeSeries" where
  "removal_loop torem [] tsout tsrej = (tsout, tsrej)"
| "removal_loop torem ((k, du) # rest) tsout tsrej =
     (case removal_inner (int k) du torem True tsrej of
        (flagg, tsrej') \<Rightarrow>
          if flagg then removal_loop torem rest (AddDataUnit tsout [du]) tsrej'
          else removal_loop torem rest tsout tsrej')"

definition PeirceOutlierRemoval :: "TimeSeries \<Rightarrow> failure + (TimeSeries \<times> TimeSeries)" where
  "PeirceOutlierRemoval tsin =
     (case Peirce (MeasToArr tsin) of
        Inl f \<Rightarrow> Inl f
      | Inr torem \<Rightarrow>
          Inr (removal_loop torem (zip [0..<length (DataSeries tsin)] (DataSeries tsin))
                 zero_TimeSeries zero_TimeSeries))"

section \<open>Regularization\<close>

subsection \<open>Durations and instants\<close>

text \<open>
  Go's \<^verbatim>\<open>int\<close> (taken as 64 bits wide) and \<^verbatim>\<open>time.Duration\<close> wrap around on
  overflow.
\<close>

definition wrap64 :: "int \<Rightarrow> int" where
  "wrap64 x = (x + 2 ^ 63) mod 2 ^ 64 - 2 ^ 63"

definition Millisecond :: Duration where "Millisecond = 1000000"
definition Second :: Duration where "Second = 1000000000"
definition Minute :: Duration where "Minute = 60000000000"
definition Hour :: Duration where "Hour = 3600000000000"

definition Time_Add :: "Time \<Rightarrow> Duration \<Rightarrow> Time" where
  "Time_Add t d = t + d"

definition After :: "Time \<Rightarrow> Time \<Rightarrow> bool" where
  "After t u = (t > u)"

text \<open>
  \<^verbatim>\<open>Time.Truncate(d)\<close> rounds down to a multiple of \<open>d\<close> since the zero time,
  and returns the instant unchanged when \<open>d \<le> 0\<close>.
\<close>

definition Truncate :: "Time \<Rightarrow> Duration \<Rightarrow> Time" where
  "Truncate t d = (if d \<le> 0 then t else t - t mod d)"

text \<open>
  The branch for days is calendar arithmetic (\<^verbatim>\<open>AddDate(0, 0, -afreqq)\<close>); in UTC
  it subtracts whole days. \<^verbatim>\<open>Regularize\<close> never reaches it.
\<close>

definition RoundedStartTime :: "Time \<Rightarrow> int \<Rightarrow> string \<Rightarrow> Time" where
  "RoundedStartTime timetoround afreqq aper =
     (if aper = ''m'' then Truncate timetoround (wrap64 (Minute * afreqq))
      else if aper = ''s'' then Truncate timetoround (wrap64 (Second * afreqq))
      else if aper = ''h'' then Truncate timetoround (wrap64 (Hour * afreqq))
      else if aper = ''d'' then timetoround - afreqq * (24 * Hour)
      else timetoround)"

definition AddDuration :: "Time \<Rightarrow> int \<Rightarrow> string \<Rightarrow> Time" where
  "AddDuration start freq per =
     (if per = ''s'' then Time_Add start (wrap64 (Second * freq))
      else if per = ''m'' then Time_Add start (wrap64 (Minute * freq))
      else if per = ''h'' then Time_Add start (wrap64 (Hour * freq))
      else start)"

definition AddDurationTol :: "Time \<Rightarrow> int \<Rightarrow> string \<Rightarrow> int \<Rightarrow> Time" where
  "AddDurationTol start freq per tolerance =
     (if per = ''s'' then Time_Add start (wrap64 (Millisecond * wrap64 (freq * 1000 + tolerance)))
      else if per = ''m'' then Time_Add start (wrap64 (Second * wrap64 (freq * 60 + tolerance)))
      else if per = ''h'' then Time_Add start (wrap64 (Minute * wrap64 (freq * 60 + tolerance)))
      else start)"

subsection \<open>Aggregation\<close>

fun bounds_loop :: "float64 \<Rightarrow> float64 \<Rightarrow> float64 list \<Rightarrow> float64 \<times> float64" where
  "bounds_loop mn mx [] = (mn, mx)"
| "bounds_loop mn mx (x # xs) =
     bounds_loop (if flt x mn then x else mn) (if fgt x mx then x else mx) xs"

definition Bounds :: "float64 list \<Rightarrow> float64 \<times> float64" where
  "Bounds xs = (case xs of [] \<Rightarrow> (Fin 0, Fin 0) | x # _ \<Rightarrow> bounds_loop x x xs)"

text \<open>
  The \<^verbatim>\<open>switch meth\<close> of \<^verbatim>\<open>Regularize\<close>, for a non-empty bucket \<open>local\<close>
  whose running sum is \<open>sm\<close>.
\<close>

definition aggregate :: "string \<Rightarrow> float64 list \<Rightarrow> float64 \<Rightarrow> float64" where
  "aggregate meth local sm =
     (if meth = ''Average'' \<or> meth = ''average'' \<or> meth = ''avg'' then fst (Mean local)
      else if meth = ''Maximum'' \<or> meth = ''maximum'' \<or> meth = ''max'' then snd (Bounds local)
      else if meth = ''Minimum'' \<or> meth = ''minimum'' \<or> meth = ''min'' then fst (Bounds local)
      else if meth = ''Last'' \<or> meth = ''last'' then local ! (length local - 1)
      else if meth = ''Sum'' \<or> meth = ''sum'' then sm
      else Fin (1 / 10 ^ 10))"

subsection \<open>The windowing walk\<close>

text \<open>
  The input index \<open>i\<close> of the source is the list of records not yet consumed.
  \<open>collect\<close> is the loop that gathers the records up to \<open>windowEnd\<close>.
\<close>

fun collect ::
  "Time \<Rightarrow> DataUnit list \<Rightarrow> float64 \<Rightarrow> float64 list \<Rightarrow> float64 \<times> float64 list \<times> DataUnit list" where
  "collect windowEnd [] sm local = (sm, local, [])"
| "collect windowEnd (d # ds) sm local =
     (if \<not> After (Chron d) windowEnd
      then collect windowEnd ds (fadd sm (Meas d)) (local @ [Meas d])
      else (sm, local, d # ds))"

text \<open>
  The inner loop inserts one sentinel record per window that the next pending
  record lies beyond. Nothing bounds its number of rounds: the result is
  \<open>None\<close> when it does not return.
\<close>

partial_function (option) fill_gaps ::
  "int \<Rightarrow> string \<Rightarrow> int \<Rightarrow> Time \<Rightarrow> Time \<Rightarrow> DataUnit list \<Rightarrow> (Time \<times> DataUnit list) option" where
  "fill_gaps freq per tolerance next windowEnd out =
     (let nextEnd = AddDurationTol windowEnd freq per 0;
          nextEndTol = AddDurationTol windowEnd freq per tolerance
      in if \<not> After next nextEndTol then Some (nextEnd, out)
         else fill_gaps freq per tolerance next nextEnd (out @ [mk_DataUnit nextEnd NaN]))"

text \<open>
  Step 2 of the walk: a window in which records were collected gives one
  output record, stamped at the end of the window; an empty one gives none.
\<close>

definition emit_window ::
  "string \<Rightarrow> Time \<Rightarrow> float64 \<Rightarrow> float64 list \<Rightarrow> DataUnit list \<Rightarrow> DataUnit list" where
  "emit_window meth windowEnd sm local out =
     (if length local > 0 then out @ [mk_DataUnit windowEnd (aggregate meth local sm)]
      else out)"

partial_function (option) regularize_loop ::
  "int \<Rightarrow> string \<Rightarrow> string \<Rightarrow> int \<Rightarrow> DataUnit list \<Rightarrow> Time \<Rightarrow> DataUnit list \<Rightarrow> DataUnit list option" where
  "regularize_loop freq per meth tolerance pending windowEnd out =
     (let c = collect windowEnd pending (Fin 0) [];
          out' = emit_window meth windowEnd (fst c) (fst (snd c)) out;
          pending' = snd (snd c)
      in if pending' = [] then Some out'
         else Option.bind (fill_gaps freq per tolerance (Chron (hd pending')) windowEnd out')
                (\<lambda>r. regularize_loop freq per meth tolerance pending' (fst r) (snd r)))"

definition normalize_per :: "string \<Rightarrow> failure + string" where
  "normalize_per per =
     (if per = ''Seconds'' \<or> per = ''sec'' \<or> per = ''s'' then Inr ''s''
      else if per = ''Minutes'' \<or> per = ''min'' \<or> per = ''m'' then Inr ''m''
      else if per = ''Hours'' \<or> per = ''h'' then Inr ''h''
      else Inl (LogFatal ''period not accepted''))"

text \<open>
  \<^verbatim>\<open>Regularize\<close> returns a new series (the receiver is sorted in place on
  the way, which is not returned here). \<open>None\<close>: the call does not return.
\<close>

definition Regularize ::
  "TimeSeries \<Rightarrow> int \<Rightarrow> string \<Rightarrow> string \<Rightarrow> int \<Rightarrow> (failure + TimeSeries) option" where
  "Regularize ts freq per0 meth tolerance =
     (case normalize_per per0 of
        Inl f \<Rightarrow> Some (Inl f)
      | Inr per \<Rightarrow>
          if length (DataSeries ts) = 0 then Some (Inr zero_TimeSeries)
          else
            let ts1 = SortChronAsc ts;
                datemin = Chron (DataSeries ts1 ! 0);
                start0 = RoundedStartTime datemin freq per;
                start = (if datemin = start0 then AddDuration datemin (wrap64 (- freq)) per
                         else start0);
                windowEnd = AddDurationTol start freq per 0
            in map_option (\<lambda>out. Inr (AddDataUnit zero_TimeSeries out))
                 (regularize_loop freq per meth tolerance (DataSeries ts1) windowEnd []))"

section \<open>Auxiliary notions for the statements\<close>

text \<open>The spellings of the aggregation mode that \<^verbatim>\<open>Regularize\<close> recognizes.\<close>

definition recognized_mode :: "string \<Rightarrow> bool" where
  "recognized_mode meth \<longleftrightarrow>
     meth \<in> set [''Average'', ''average'', ''avg'', ''Maximum'', ''maximum'', ''max'',
                 ''Minimum'', ''minimum'', ''min'', ''Last'', ''last'', ''Sum'', ''sum'']"

text \<open>
  Every record carries the placeholder 0.0000000001 of the default branch, or
  the not-a-number of a sentinel.
\<close>

definition placeholder_or_NaN :: "DataUnit list \<Rightarrow> bool" where
  "placeholder_or_NaN out \<longleftrightarrow> list_all (\<lambda>d. Meas d = Fin (1 / 10 ^ 10) \<or> Meas d = NaN) out"

text \<open>
  The observations of the package's test of Peirce's criterion, and their
  absolute deviations from the mean 801/35, largest first, each with the
  position of its observation.
\<close>

definition peirce_sample :: "float64 list" where
  "peirce_sample = [Fin 10, Fin 11, Fin 9, Fin 10.5, Fin 100, Fin 9.5, Fin 10.2]"

definition peirce_sorted :: "compdeviation list" where
  "peirce_sorted =
     [\<lparr>initialplace = 4, dvalue = Fin (2699 / 35)\<rparr>,
      \<lparr>initialplace = 2, dvalue = Fin (486 / 35)\<rparr>,
      \<lparr>initialplace = 5, dvalue = Fin (937 / 70)\<rparr>,
      \<lparr>initialplace = 0, dvalue = Fin (451 / 35)\<rparr>,
      \<lparr>initialplace = 6, dvalue = Fin (444 / 35)\<rparr>,
      \<lparr>initialplace = 3, dvalue = Fin (867 / 70)\<rparr>,
      \<lparr>initialplace = 1, dvalue = Fin (416 / 35)\<rparr>]"

section \<open>The regular grid of the specification\<close>

text \<open>
  The specification describes the output of the regularization by its grid:
  the anchor is the first timestamp rounded down to a multiple of the period,
  stepped back by one period when the first timestamp is such a multiple
  itself; the first window ends one period after the anchor; every window up
  to the one holding the last record gives one record, stamped at its end,
  the aggregate of the records that fall in it, or not-a-number when none
  does. These definitions follow the specification, not the code.
\<close>

text \<open>The period in nanoseconds, as \<^verbatim>\<open>AddDurationTol\<close> adds it with tolerance 0.\<close>

definition period_ns :: "int \<Rightarrow> string \<Rightarrow> Duration" where
  "period_ns freq per = AddDurationTol 0 freq per 0"

text \<open>The records with a timestamp in the window \<open>(u - P, u]\<close>.\<close>

definition bucket :: "DataUnit list \<Rightarrow> Duration \<Rightarrow> Time \<Rightarrow> DataUnit list" where
  "bucket ds P u = filter (\<lambda>d. u - P < Chron d \<and> Chron d \<le> u) ds"

definition window_record :: "string \<Rightarrow> DataUnit list \<Rightarrow> Duration \<Rightarrow> Time \<Rightarrow> DataUnit" where
  "window_record meth ds P u =
     (let vals = map Meas (bucket ds P u)
      in mk_DataUnit u (if vals = [] then NaN
                        else aggregate meth vals (foldl fadd (Fin 0) vals)))"

definition first_window_end :: "Time \<Rightarrow> Duration \<Rightarrow> Time" where
  "first_window_end t0 P = (if t0 mod P = 0 then t0 else t0 - t0 mod P + P)"

definition regular_grid :: "string \<Rightarrow> DataUnit list \<Rightarrow> Duration \<Rightarrow> DataUnit list" where
  "regular_grid meth ds P =
     (let w0 = first_window_end (Chron (hd ds)) P;
          m = nat ((Chron (last ds) - w0 + P - 1) div P)
      in map (\<lambda>k. window_record meth ds P (w0 + int k * P)) [0..<Suc m])"

text \<open>
  Two notions for the proofs: the run of \<open>n\<close> sentinel records after the
  window that ends at \<open>w\<close>, and the number of empty windows between the window
  that ends at \<open>w\<close> and the one that holds a record at \<open>t\<close>.
\<close>

fun nan_run :: "Time \<Rightarrow> Duration \<Rightarrow> nat \<Rightarrow> DataUnit list" where
  "nan_run w P 0 = []"
| "nan_run w P (Suc n) = mk_DataUnit (w + P) NaN # nan_run (w + P) P n"

definition gap_count :: "Time \<Rightarrow> Time \<Rightarrow> Duration \<Rightarrow> nat" where
  "gap_count t w P = nat ((t - w - 1) div P)"

text \<open>The test of \<^verbatim>\<open>RemoveOutbounds\<close> that keeps a record.\<close>

definition within_bounds :: "float64 \<Rightarrow> float64 \<Rightarrow> DataUnit \<Rightarrow> bool" where
  "within_bounds mn mx d \<longleftrightarrow> \<not> (fgt (Meas d) mx \<or> flt (Meas d) mn)"

section \<open>Evaluating the windowing walk\<close>

text \<open>
  One round of each loop, as conditional equations: they let the simplifier
  run the walk on a concrete series.
\<close>

lemma fill_gaps_stop:
  "\<not> After next (AddDurationTol w freq per tol) \<Longrightarrow>
   fill_gaps freq per tol next w out = Some (AddDurationTol w freq per 0, out)"
  by (subst fill_gaps.simps) (simp add: Let_def)

lemma fill_gaps_step:
  "After next (AddDurationTol w freq per tol) \<Longrightarrow>
   fill_gaps freq per tol next w out =
   fill_gaps freq per tol next (AddDurationTol w freq per 0)
     (out @ [mk_DataUnit (AddDurationTol w freq per 0) NaN])"
  by (subst fill_gaps.simps) (simp add: Let_def)

lemma regularize_loop_done:
  "collect w pending (Fin 0) [] = (sm, local, []) \<Longrightarrow>
   regularize_loop freq per meth tol pending w out = Some (emit_window meth w sm local out)"
  by (subst regularize_loop.simps) (simp add: Let_def)

lemma regularize_loop_step:
  "collect w pending (Fin 0) [] = (sm, local, d # rest) \<Longrightarrow>
   regularize_loop freq per meth tol pending w out =
   Option.bind (fill_gaps freq per tol (Chron d) w (emit_window meth w sm local out))
     (\<lambda>r. regularize_loop freq per meth tol (d # rest) (fst r) (snd r))"
  by (subst regularize_loop.simps) (simp add: Let_def)

lemmas reg_eval =
  Regularize_def normalize_per_def SortChronAsc_def sort_Slice_def mk_DataUnit_def
  RoundedStartTime_def Truncate_def wrap64_def Second_def AddDurationTol_def Time_Add_def
  Millisecond_def Let_def After_def aggregate_def Mean_def Sum_go_def float64_of_nat_def
  emit_window_def AddDataUnit_def zero_TimeSeries_def AddDuration_def
  regularize_loop_done regularize_loop_step fill_gaps_stop fill_gaps_step

lemma mod_offset:
  fixes b :: int
  assumes "b mod P = 0" "0 \<le> r" "r < P"
  shows "(b + r) mod P = r"
proof -
  have "(b + r) mod P = (b mod P + r mod P) mod P"
    by (simp add: mod_add_eq)
  then show ?thesis
    using assms by simp
qed

section \<open>Regularization of three points\<close>

text \<open>
  Claim C1. Take any instant \<open>b\<close> on a 30-second boundary and a series of
  exactly three records, at \<open>b + 5 s\<close> with value 1, at \<open>b + 20 s\<close> with
  value 3 and at \<open>b + 45 s\<close> with value 10. \<^verbatim>\<open>Regularize\<close> with a period of 30
  seconds, mean aggregation and tolerance 0 returns, and its result is the
  series of exactly two records: value 2 at \<open>b + 30 s\<close> and value 10 at
  \<open>b + 60 s\<close>.
\<close>

theorem Regularize_three_points:
  assumes b: "b mod 30000000000 = 0"
    and ds: "DataSeries ts = [d1, d2, d3]"
    and c: "Chron d1 = b + 5000000000" "Chron d2 = b + 20000000000"
      "Chron d3 = b + 45000000000"
    and m: "Meas d1 = Fin 1" "Meas d2 = Fin 3" "Meas d3 = Fin 10"
    and per: "per = ''Seconds'' \<or> per = ''sec'' \<or> per = ''s''"
    and meth: "meth = ''Average'' \<or> meth = ''average'' \<or> meth = ''avg''"
  shows "Regularize ts 30 per meth 0 =
     Some (Inr \<lparr>Name = [], Comment = [],
                 DataSeries = [mk_DataUnit (b + 30000000000) (Fin 2),
                               mk_DataUnit (b + 60000000000) (Fin 10)]\<rparr>)"
proof -
  have np: "normalize_per per = Inr ''s''"
    using per by (auto simp: normalize_per_def)
  have srt: "DataSeries (SortChronAsc ts) = [d1, d2, d3]"
    by (simp add: SortChronAsc_def sort_Slice_def ds c)
  have tr: "(b + 5000000000) mod 30000000000 = 5000000000"
    using mod_offset[OF b, of 5000000000] by simp
  have start: "RoundedStartTime (b + 5000000000) 30 ''s'' = b"
    by (simp add: RoundedStartTime_def Truncate_def wrap64_def Second_def tr)
  have agg: "\<And>l s. aggregate meth l s = fst (Mean l)"
    using meth by (auto simp: aggregate_def)
  have loop: "regularize_loop 30 ''s'' meth 0 [d1, d2, d3] (b + 30000000000) [] =
      Some [mk_DataUnit (b + 30000000000) (Fin 2), mk_DataUnit (b + 60000000000) (Fin 10)]"
    by (simp add: c m agg regularize_loop_done regularize_loop_step fill_gaps_stop
        fill_gaps_step After_def AddDurationTol_def Time_Add_def Millisecond_def wrap64_def
        emit_window_def Mean_def Sum_go_def float64_of_nat_def add.commute)
  show ?thesis
    by (simp add: Regularize_def np ds srt c start Let_def AddDurationTol_def Time_Add_def
        Millisecond_def wrap64_def loop AddDataUnit_def zero_TimeSeries_def)
qed

text \<open>
  The series of the package's own test: \<open>b\<close> is 10 November 2025, 10:00:00 UTC,
  that is 63898365600 seconds after the zero time.
\<close>

theorem Regularize_three_points_witness:
  "(63898365600000000000 :: int) mod 30000000000 = 0 \<and>
   Regularize \<lparr>Name = ''sample'', Comment = [],
        DataSeries = [mk_DataUnit 63898365605000000000 (Fin 1),
                      mk_DataUnit 63898365620000000000 (Fin 3),
                      mk_DataUnit 63898365645000000000 (Fin 10)]\<rparr> 30 ''s'' ''avg'' 0 =
     Some (Inr \<lparr>Name = [], Comment = [],
                 DataSeries = [mk_DataUnit 63898365630000000000 (Fin 2),
                               mk_DataUnit 63898365660000000000 (Fin 10)]\<rparr>)"
  using Regularize_three_points [of 63898365600000000000
      "\<lparr>Name = ''sample'', Comment = [],
        DataSeries = [mk_DataUnit 63898365605000000000 (Fin 1),
                      mk_DataUnit 63898365620000000000 (Fin 3),
                      mk_DataUnit 63898365645000000000 (Fin 10)]\<rparr>"
      "mk_DataUnit 63898365605000000000 (Fin 1)"
      "mk_DataUnit 63898365620000000000 (Fin 3)"
      "mk_DataUnit 63898365645000000000 (Fin 10)" "''s''" "''avg''"]
  by (simp add: mk_DataUnit_def)

section \<open>The walk with zero tolerance\<close>

text \<open>
  With tolerance 0 and a positive period the walk returns, and its output is
  the grid of the specification. The lemmas of this section lead to that
  result, \<open>Regularize_zero_tolerance\<close>.
\<close>

subsection \<open>Sorting a sorted slice, and wrap-around\<close>

lemma insert_back_mset: "mset (insert_back lt x ys) = add_mset x (mset ys)"
  by (induction ys) auto

lemma sort_Slice_mset: "mset (sort_Slice lt xs) = mset xs"
proof -
  have "mset (foldl (\<lambda>acc x. insert_back lt x acc) acc xs) = mset acc + mset xs" for acc
    by (induction xs arbitrary: acc) (auto simp: insert_back_mset)
  then show ?thesis by (simp add: sort_Slice_def)
qed

lemma sort_Slice_length: "length (sort_Slice lt xs) = length xs"
  using sort_Slice_mset[of lt xs] by (metis size_mset)

lemma insert_back_head:
  "ys = [] \<or> \<not> lt x (hd ys) \<Longrightarrow> insert_back lt x ys = x # ys"
  by (cases ys) auto

lemma sort_Slice_snoc:
  "sort_Slice lt (xs @ [x]) = rev (insert_back lt x (rev (sort_Slice lt xs)))"
  by (simp add: sort_Slice_def)

lemma sort_Slice_sorted_id:
  "sorted_wrt (\<lambda>a b. \<not> lt b a) xs \<Longrightarrow> sort_Slice lt xs = xs"
proof (induction xs rule: rev_induct)
  case Nil
  then show ?case by (simp add: sort_Slice_def)
next
  case (snoc x xs)
  then have xs: "sort_Slice lt xs = xs" and l: "\<forall>y \<in> set xs. \<not> lt x y"
    by (auto simp: sorted_wrt_append)
  have "rev xs = [] \<or> \<not> lt x (hd (rev xs))"
    using l by (cases xs rule: rev_cases) auto
  then have "insert_back lt x (rev xs) = x # rev xs" by (rule insert_back_head)
  then show ?case by (simp add: sort_Slice_snoc xs)
qed

lemma wrap64_cong: "x mod 2 ^ 64 = y mod 2 ^ 64 \<Longrightarrow> wrap64 x = wrap64 y"
  unfolding wrap64_def by (metis mod_add_left_eq)

lemma wrap64_mod: "wrap64 x mod 2 ^ 64 = x mod 2 ^ 64"
proof -
  have "wrap64 x mod 2 ^ 64 = ((x + 2 ^ 63) mod 2 ^ 64 - 2 ^ 63) mod 2 ^ 64"
    by (simp add: wrap64_def)
  also have "\<dots> = (x + 2 ^ 63 - 2 ^ 63) mod 2 ^ 64"
    by (rule mod_diff_left_eq)
  finally show ?thesis by simp
qed

lemma wrap64_mult_right: "wrap64 (a * wrap64 b) = wrap64 (a * b)"
  by (rule wrap64_cong) (metis mod_mult_right_eq wrap64_mod)

lemma wrap64_id: "- (2 ^ 63) \<le> x \<Longrightarrow> x < 2 ^ 63 \<Longrightarrow> wrap64 x = x"
  by (simp add: wrap64_def)

lemma wrap64_range: "- (2 ^ 63) \<le> wrap64 x" "wrap64 x < 2 ^ 63"
proof -
  have "0 \<le> (x + 2 ^ 63) mod 2 ^ 64" "(x + 2 ^ 63) mod 2 ^ 64 < (2 ^ 64 :: int)"
    by simp_all
  then show "- (2 ^ 63) \<le> wrap64 x" "wrap64 x < 2 ^ 63"
    by (simp_all add: wrap64_def)
qed

lemma wrap64_neg:
  assumes "0 < wrap64 (a * freq)"
  shows "wrap64 (a * wrap64 (- freq)) = - wrap64 (a * freq)"
proof -
  have "wrap64 (a * wrap64 (- freq)) = wrap64 (- (a * freq))"
    by (simp add: wrap64_mult_right)
  also have "\<dots> = wrap64 (- wrap64 (a * freq))"
    by (rule wrap64_cong) (metis mod_minus_eq wrap64_mod)
  also have "\<dots> = - wrap64 (a * freq)"
    using assms wrap64_range[of "a * freq"] by (intro wrap64_id) linarith+
  finally show ?thesis .
qed

subsection \<open>The period and the first window\<close>

lemma AddDurationTol_period:
  "AddDurationTol w freq per 0 = w + period_ns freq per"
  by (simp add: period_ns_def AddDurationTol_def Time_Add_def)

lemma normalize_per_cases:
  "normalize_per per = Inr u \<Longrightarrow> u = ''s'' \<or> u = ''m'' \<or> u = ''h''"
  by (auto simp: normalize_per_def split: if_splits)

lemma period_ns_unit:
  "period_ns freq ''s'' = wrap64 (Second * freq)"
  "period_ns freq ''m'' = wrap64 (Minute * freq)"
  "period_ns freq ''h'' = wrap64 (Hour * freq)"
proof -
  have "period_ns freq ''s'' = wrap64 (Millisecond * (freq * 1000))"
    by (simp add: period_ns_def AddDurationTol_def Time_Add_def wrap64_mult_right)
  also have "Millisecond * (freq * 1000) = Second * freq"
    by (simp add: Millisecond_def Second_def)
  finally show "period_ns freq ''s'' = wrap64 (Second * freq)" .
  have "period_ns freq ''m'' = wrap64 (Second * (freq * 60))"
    by (simp add: period_ns_def AddDurationTol_def Time_Add_def wrap64_mult_right)
  also have "Second * (freq * 60) = Minute * freq"
    by (simp add: Second_def Minute_def)
  finally show "period_ns freq ''m'' = wrap64 (Minute * freq)" .
  have "period_ns freq ''h'' = wrap64 (Minute * (freq * 60))"
    by (simp add: period_ns_def AddDurationTol_def Time_Add_def wrap64_mult_right)
  also have "Minute * (freq * 60) = Hour * freq"
    by (simp add: Minute_def Hour_def)
  finally show "period_ns freq ''h'' = wrap64 (Hour * freq)" .
qed

lemma first_window:
  assumes u: "u = ''s'' \<or> u = ''m'' \<or> u = ''h''" and P: "0 < period_ns freq u"
  shows "AddDurationTol
           (if t0 = RoundedStartTime t0 freq u then AddDuration t0 (wrap64 (- freq)) u
            else RoundedStartTime t0 freq u) freq u 0 =
         first_window_end t0 (period_ns freq u)"
proof -
  let ?P = "period_ns freq u"
  have r: "RoundedStartTime t0 freq u = t0 - t0 mod ?P"
    using u P by (auto simp: RoundedStartTime_def Truncate_def period_ns_unit)
  have a: "AddDuration t0 (wrap64 (- freq)) u = t0 - ?P"
    using u P by (auto simp: AddDuration_def Time_Add_def period_ns_unit wrap64_neg)
  show ?thesis
    by (simp add: r a AddDurationTol_period first_window_end_def)
qed

lemma first_window_bounds:
  assumes "0 < P"
  shows "first_window_end t0 P - P < t0" "t0 \<le> first_window_end t0 P"
proof -
  have m: "0 \<le> t0 mod P" "t0 mod P < P" using assms by simp_all
  show "first_window_end t0 P - P < t0"
  proof (cases "t0 mod P = 0")
    case True
    then show ?thesis using assms by (simp add: first_window_end_def)
  next
    case False
    with m(1) have "0 < t0 mod P" by linarith
    with False show ?thesis by (simp add: first_window_end_def)
  qed
  show "t0 \<le> first_window_end t0 P"
    using m(2) by (simp add: first_window_end_def)
qed

subsection \<open>The two loops\<close>

lemma fill_gaps_closed:
  assumes P: "0 < period_ns freq per"
  shows "fill_gaps freq per 0 t w out =
     Some (w + (int (gap_count t w (period_ns freq per)) + 1) * period_ns freq per,
           out @ nan_run w (period_ns freq per) (gap_count t w (period_ns freq per)))"
proof (induction "gap_count t w (period_ns freq per)" arbitrary: w out)
  case 0
  let ?P = "period_ns freq per"
  from 0 have "(t - w - 1) div ?P \<le> 0" by (simp add: gap_count_def)
  then have "t - w - 1 < ?P"
    using P pos_imp_zdiv_pos_iff[of ?P "t - w - 1"] by linarith
  then have "\<not> After t (w + ?P)" by (simp add: After_def)
  with 0 show ?case
    by (simp add: fill_gaps_stop AddDurationTol_period)
next
  case (Suc n)
  let ?P = "period_ns freq per"
  from Suc(2) have d: "(t - w - 1) div ?P = int n + 1"
    by (simp add: gap_count_def)
  then have "?P \<le> t - w - 1"
    using P pos_imp_zdiv_pos_iff[of ?P "t - w - 1"] by linarith
  then have a: "After t (w + ?P)" by (simp add: After_def)
  have "(t - (w + ?P) - 1) div ?P = (t - w - 1) div ?P - 1"
    using P div_add_self2[of ?P "t - (w + ?P) - 1"] by (simp add: algebra_simps)
  then have g: "gap_count t (w + ?P) ?P = n"
    using d by (simp add: gap_count_def)
  have "fill_gaps freq per 0 t w out =
      fill_gaps freq per 0 t (w + ?P) (out @ [mk_DataUnit (w + ?P) NaN])"
    using a by (simp add: fill_gaps_step AddDurationTol_period)
  also have "\<dots> = Some (w + ?P + (int n + 1) * ?P,
      (out @ [mk_DataUnit (w + ?P) NaN]) @ nan_run (w + ?P) ?P n)"
    using Suc(1)[of "w + ?P" "out @ [mk_DataUnit (w + ?P) NaN]"] g by simp
  finally show ?case
    using Suc(2)[symmetric] by (simp add: algebra_simps)
qed

lemma collect_eq:
  "collect w ds sm local =
     (foldl fadd sm (map Meas (takeWhile (\<lambda>d. Chron d \<le> w) ds)),
      local @ map Meas (takeWhile (\<lambda>d. Chron d \<le> w) ds),
      dropWhile (\<lambda>d. Chron d \<le> w) ds)"
  by (induction ds arbitrary: sm local) (auto simp: After_def)

lemma sorted_takeWhile_filter:
  "sorted (map Chron ds) \<Longrightarrow>
   takeWhile (\<lambda>d. Chron d \<le> w) ds = filter (\<lambda>d. Chron d \<le> w) ds"
proof (induction ds)
  case Nil
  then show ?case by simp
next
  case (Cons d ds)
  show ?case
  proof (cases "Chron d \<le> w")
    case True
    with Cons show ?thesis by simp
  next
    case False
    with Cons.prems have "\<forall>x \<in> set ds. \<not> Chron x \<le> w" by auto
    then have "filter (\<lambda>d. Chron d \<le> w) ds = []" by (simp add: filter_empty_conv)
    with False show ?thesis by simp
  qed
qed

lemma nan_run_map:
  "nan_run w P n = map (\<lambda>k. mk_DataUnit (w + (int k + 1) * P) NaN) [0..<n]"
proof (induction n arbitrary: w)
  case 0
  then show ?case by simp
next
  case (Suc n)
  have "map (\<lambda>k. mk_DataUnit (w + (int k + 1) * P) NaN) [0..<Suc n] =
      mk_DataUnit (w + P) NaN # map (\<lambda>k. mk_DataUnit (w + (int (Suc k) + 1) * P) NaN) [0..<n]"
    by (subst map_upt_Suc) simp
  also have "map (\<lambda>k. mk_DataUnit (w + (int (Suc k) + 1) * P) NaN) [0..<n] =
      map (\<lambda>k. mk_DataUnit (w + P + (int k + 1) * P) NaN) [0..<n]"
    by (simp add: algebra_simps)
  finally show ?case using Suc[of "w + P"] by simp
qed

lemma map_upt_split:
  "map g [0..<n + m] = map g [0..<n] @ map (\<lambda>k. g (n + k)) [0..<m]"
proof -
  have "[0..<n + m] = [0..<n] @ [n..<n + m]"
    by (rule upt_add_eq_append) simp
  moreover have "[n..<n + m] = map (\<lambda>k. n + k) [0..<m]"
    using map_add_upt[of n m] by (simp only: add.commute[of n])
  ultimately show ?thesis by (simp only: map_append map_map o_def)
qed

lemma bucket_append: "bucket (xs @ ys) P u = bucket xs P u @ bucket ys P u"
  by (simp add: bucket_def)

lemma bucket_empty_below:
  "\<forall>d \<in> set xs. Chron d \<le> u - P \<Longrightarrow> bucket xs P u = []"
  by (auto simp: bucket_def filter_empty_conv)

lemma bucket_empty_above:
  "\<forall>d \<in> set xs. u < Chron d \<Longrightarrow> bucket xs P u = []"
  by (auto simp: bucket_def filter_empty_conv)

lemma window_record_cong:
  "bucket xs P u = bucket ys P u \<Longrightarrow> window_record meth xs P u = window_record meth ys P u"
  by (simp add: window_record_def)

lemma window_record_empty:
  "bucket xs P u = [] \<Longrightarrow> window_record meth xs P u = mk_DataUnit u NaN"
  by (simp add: window_record_def)

lemma gap_count_bounds:
  assumes "0 < P" "w < t"
  shows "w + int (gap_count t w P) * P < t" "t \<le> w + (int (gap_count t w P) + 1) * P"
proof -
  let ?x = "t - w - 1"
  have x: "0 \<le> ?x" using assms by simp
  then have q: "0 \<le> ?x div P" using assms by (simp add: pos_imp_zdiv_nonneg_iff)
  then have n: "int (gap_count t w P) = ?x div P" by (simp add: gap_count_def)
  have "?x = P * (?x div P) + ?x mod P" by simp
  moreover have "0 \<le> ?x mod P" "?x mod P < P" using assms by simp_all
  ultimately have "P * (?x div P) \<le> ?x" "?x < P * (?x div P) + P" by linarith+
  then show "w + int (gap_count t w P) * P < t" "t \<le> w + (int (gap_count t w P) + 1) * P"
    unfolding n by (simp_all add: algebra_simps)
qed

lemma loop_grid:
  assumes P: "0 < period_ns freq per"
  shows "pending \<noteq> [] \<Longrightarrow> sorted (map Chron pending) \<Longrightarrow>
    w - period_ns freq per < Chron (hd pending) \<Longrightarrow> Chron (hd pending) \<le> w \<Longrightarrow>
    regularize_loop freq per meth 0 pending w out =
      Some (out @ map (\<lambda>k. window_record meth pending (period_ns freq per)
                            (w + int k * period_ns freq per))
                    [0..<Suc (nat ((Chron (last pending) - w + period_ns freq per - 1)
                                   div period_ns freq per))])"
proof (induction "length pending" arbitrary: pending w out rule: less_induct)
  case less
  let ?P = "period_ns freq per"
  let ?wr = "window_record meth pending ?P"
  define taken where "taken = takeWhile (\<lambda>d. Chron d \<le> w) pending"
  define rest where "rest = dropWhile (\<lambda>d. Chron d \<le> w) pending"
  have pr: "pending = taken @ rest" by (simp add: taken_def rest_def)
  obtain p ps where pp: "pending = p # ps" using less.prems(1) by (cases pending) auto
  have hp: "Chron p \<le> w" "w - ?P < Chron p" using less.prems pp by simp_all
  have tne: "taken \<noteq> []" using hp pp by (simp add: taken_def)
  have srt: "sorted (map Chron pending)" by (rule less.prems(2))
  have lo: "\<forall>d \<in> set pending. w - ?P < Chron d"
    using srt pp hp(2) by auto
  have tle: "\<forall>d \<in> set taken. Chron d \<le> w"
    by (auto simp: taken_def dest: set_takeWhileD)
  have tk: "taken = filter (\<lambda>d. Chron d \<le> w) pending"
    unfolding taken_def using srt by (rule sorted_takeWhile_filter)
  have b0: "bucket pending ?P w = taken"
    unfolding tk bucket_def using lo by (auto intro: filter_cong)
  have c: "collect w pending (Fin 0) [] =
      (foldl fadd (Fin 0) (map Meas taken), map Meas taken, rest)"
    by (simp add: collect_eq taken_def rest_def)
  have e: "emit_window meth w (foldl fadd (Fin 0) (map Meas taken)) (map Meas taken) out =
      out @ [?wr w]"
    using tne by (simp add: emit_window_def window_record_def b0 Let_def)
  show ?case
  proof (cases rest)
    case Nil
    then have "pending = taken" using pr by simp
    then have "Chron (last pending) \<le> w" using tle tne by (metis last_in_set)
    moreover have "w - ?P < Chron (last pending)"
      using lo less.prems(1) by (metis last_in_set)
    ultimately have "(Chron (last pending) - w + ?P - 1) div ?P = 0"
      by (simp add: div_pos_pos_trivial)
    moreover have "regularize_loop freq per meth 0 pending w out = Some (out @ [?wr w])"
      using regularize_loop_done[OF c[unfolded Nil]] e by simp
    ultimately show ?thesis by simp
  next
    case (Cons d rest')
    have "dropWhile (\<lambda>d. Chron d \<le> w) pending \<noteq> []"
      using Cons by (simp add: rest_def)
    then have "\<not> Chron (hd (dropWhile (\<lambda>d. Chron d \<le> w) pending)) \<le> w"
      by (rule hd_dropWhile)
    then have t: "w < Chron d" using Cons by (simp add: rest_def)
    define n where "n = gap_count (Chron d) w ?P"
    define w' where "w' = w + (int n + 1) * ?P"
    have bnd: "w + int n * ?P < Chron d" "Chron d \<le> w'"
      using gap_count_bounds[OF P t] by (simp_all add: n_def w'_def)
    have fg: "fill_gaps freq per 0 (Chron d) w (out @ [?wr w]) =
        Some (w', (out @ [?wr w]) @ nan_run w ?P n)"
      using fill_gaps_closed[OF P] by (simp add: n_def w'_def)
    have step: "regularize_loop freq per meth 0 pending w out =
        regularize_loop freq per meth 0 rest w' ((out @ [?wr w]) @ nan_run w ?P n)"
      using regularize_loop_step[OF c[unfolded Cons]] e fg Cons by simp
    have srt_rest: "sorted (map Chron rest)"
      using srt pr by (metis map_append sorted_append)
    have len: "length rest < length pending" using pr tne by (metis length_append length_greater_0_conv less_add_same_cancel2)
    have hd_rest: "hd rest = d" using Cons by simp
    have rne: "rest \<noteq> []" using Cons by simp
    have last_eq: "last pending = last rest" using pr rne by (metis last_appendR)
    have rge: "\<forall>x \<in> set rest. Chron d \<le> Chron x"
      using srt_rest Cons by auto
    let ?m' = "nat ((Chron (last rest) - w' + ?P - 1) div ?P)"
    have IH: "regularize_loop freq per meth 0 rest w' ((out @ [?wr w]) @ nan_run w ?P n) =
        Some (((out @ [?wr w]) @ nan_run w ?P n) @
              map (\<lambda>k. window_record meth rest ?P (w' + int k * ?P)) [0..<Suc ?m'])"
      using less.hyps[OF len rne srt_rest] bnd hd_rest by (simp add: w'_def algebra_simps)
    have m: "nat ((Chron (last pending) - w + ?P - 1) div ?P) = n + Suc ?m'"
    proof -
      have "Chron d \<le> Chron (last rest)" using rge rne by (metis last_in_set)
      then have x: "0 \<le> Chron (last rest) - w' + ?P - 1"
        using bnd by (simp add: w'_def algebra_simps)
      then have q: "0 \<le> (Chron (last rest) - w' + ?P - 1) div ?P"
        using P by (simp add: pos_imp_zdiv_nonneg_iff)
      have eq: "Chron (last pending) - w + ?P - 1 =
          (Chron (last rest) - w' + ?P - 1) + (int n + 1) * ?P"
        by (simp add: last_eq w'_def algebra_simps)
      have "((Chron (last rest) - w' + ?P - 1) + (int n + 1) * ?P) div ?P =
          (int n + 1) + (Chron (last rest) - w' + ?P - 1) div ?P"
        using P by (intro div_mult_self1) simp
      then have "(Chron (last pending) - w + ?P - 1) div ?P =
          (int n + 1) + (Chron (last rest) - w' + ?P - 1) div ?P"
        by (simp only: eq)
      with q show ?thesis by simp
    qed
    have nanpart: "nan_run w ?P n = map (\<lambda>k. ?wr (w + int (Suc k) * ?P)) [0..<n]"
    proof -
      have "?wr (w + int (Suc k) * ?P) = mk_DataUnit (w + (int k + 1) * ?P) NaN" if "k < n" for k
      proof -
        let ?u = "w + int (Suc k) * ?P"
        have "int (Suc k) * ?P \<le> int n * ?P" using that P by (simp add: mult_right_mono)
        then have u: "?u < Chron d" using bnd(1) by linarith
        have "w \<le> ?u - ?P" using P by (simp add: algebra_simps)
        then have "bucket taken ?P ?u = []"
          using tle by (intro bucket_empty_below) force
        moreover have "bucket rest ?P ?u = []"
          using rge u by (intro bucket_empty_above) force
        ultimately have "bucket pending ?P ?u = []"
          by (subst pr) (simp add: bucket_append)
        then show ?thesis by (simp add: window_record_empty algebra_simps)
      qed
      then show ?thesis by (simp add: nan_run_map)
    qed
    have restpart: "map (\<lambda>k. window_record meth rest ?P (w' + int k * ?P)) [0..<Suc ?m'] =
        map (\<lambda>k. ?wr (w + int (Suc (n + k)) * ?P)) [0..<Suc ?m']"
    proof -
      have "window_record meth rest ?P (w' + int k * ?P) = ?wr (w + int (Suc (n + k)) * ?P)" for k
      proof -
        have u: "w + int (Suc (n + k)) * ?P = w' + int k * ?P"
          by (simp add: w'_def algebra_simps)
        have "0 \<le> (int n + int k) * ?P" using P by simp
        then have "w \<le> w' + int k * ?P - ?P" by (simp add: w'_def algebra_simps)
        then have "bucket taken ?P (w' + int k * ?P) = []"
          using tle by (intro bucket_empty_below) force
        then have "bucket pending ?P (w' + int k * ?P) = bucket rest ?P (w' + int k * ?P)"
          by (subst pr) (simp add: bucket_append)
        then show ?thesis unfolding u by (rule window_record_cong[symmetric])
      qed
      then show ?thesis by simp
    qed
    have "map (\<lambda>k. ?wr (w + int k * ?P)) [0..<Suc (n + Suc ?m')] =
        ?wr w # map (\<lambda>k. ?wr (w + int (Suc k) * ?P)) [0..<n + Suc ?m']"
      by (subst map_upt_Suc) simp
    also have "map (\<lambda>k. ?wr (w + int (Suc k) * ?P)) [0..<n + Suc ?m'] =
        map (\<lambda>k. ?wr (w + int (Suc k) * ?P)) [0..<n] @
        map (\<lambda>k. ?wr (w + int (Suc (n + k)) * ?P)) [0..<Suc ?m']"
      by (rule map_upt_split)
    finally have "map (\<lambda>k. ?wr (w + int k * ?P)) [0..<Suc (n + Suc ?m')] =
        [?wr w] @ nan_run w ?P n @
        map (\<lambda>k. window_record meth rest ?P (w' + int k * ?P)) [0..<Suc ?m']"
      unfolding nanpart restpart by simp
    then show ?thesis
      unfolding step IH m by simp
  qed
qed

subsection \<open>The result\<close>

text \<open>
  For a recognized period unit, a positive period, a non-empty series with
  strictly increasing timestamps and tolerance 0, \<^verbatim>\<open>Regularize\<close> returns the
  grid of the specification, whatever the aggregation mode.
\<close>

lemma increasing_sorted:
  assumes "sorted_wrt (\<lambda>a b. Chron a < Chron b) ds"
  shows "sorted (map Chron ds)"
proof -
  have "sorted_wrt (\<lambda>a b. Chron a \<le> Chron b) ds"
    using assms by (rule sorted_wrt_mono_rel[rotated]) simp
  then show ?thesis by (simp add: sorted_map)
qed

lemma Regularize_zero_tolerance:
  assumes per: "normalize_per per = Inr u"
    and P: "0 < period_ns freq u"
    and ne: "DataSeries ts \<noteq> []"
    and inc: "sorted_wrt (\<lambda>a b. Chron a < Chron b) (DataSeries ts)"
  shows "Regularize ts freq per meth 0 =
     Some (Inr \<lparr>Name = [], Comment = [],
                 DataSeries = regular_grid meth (DataSeries ts) (period_ns freq u)\<rparr>)"
proof -
  let ?P = "period_ns freq u"
  let ?ds = "DataSeries ts"
  have u: "u = ''s'' \<or> u = ''m'' \<or> u = ''h''"
    using per by (rule normalize_per_cases)
  have "sorted_wrt (\<lambda>a b. \<not> Chron b < Chron a) ?ds"
    using inc by (rule sorted_wrt_mono_rel[rotated]) simp
  then have srt: "DataSeries (SortChronAsc ts) = ?ds"
    by (simp add: SortChronAsc_def sort_Slice_sorted_id)
  have s: "sorted (map Chron ?ds)"
    using inc by (rule increasing_sorted)
  have h: "?ds ! 0 = hd ?ds" using ne by (simp add: hd_conv_nth)
  let ?w0 = "first_window_end (Chron (hd ?ds)) ?P"
  have loop: "regularize_loop freq u meth 0 ?ds ?w0 [] =
      Some ([] @ map (\<lambda>k. window_record meth ?ds ?P (?w0 + int k * ?P))
               [0..<Suc (nat ((Chron (last ?ds) - ?w0 + ?P - 1) div ?P))])"
    using first_window_bounds[OF P, of "Chron (hd ?ds)"]
    by (intro loop_grid[OF P ne s]) simp_all
  show ?thesis
    by (simp add: Regularize_def per ne srt h Let_def first_window[OF u P] loop
        regular_grid_def AddDataUnit_def zero_TimeSeries_def)
qed

text \<open>
  The grid is regular: consecutive records are one period apart. Its first
  window holds the first record of the series and its last window the last
  one, so that no sentinel leads or trails.
\<close>

lemma regular_grid_length:
  "length (regular_grid meth ds P) =
     Suc (nat ((Chron (last ds) - first_window_end (Chron (hd ds)) P + P - 1) div P))"
  by (simp add: regular_grid_def Let_def)

lemma regular_grid_nth:
  assumes "k < length (regular_grid meth ds P)"
  shows "regular_grid meth ds P ! k =
     window_record meth ds P (first_window_end (Chron (hd ds)) P + int k * P)"
proof -
  let ?m = "nat ((Chron (last ds) - first_window_end (Chron (hd ds)) P + P - 1) div P)"
  have "k < Suc ?m" using assms by (simp add: regular_grid_length)
  then have "map (\<lambda>k. window_record meth ds P (first_window_end (Chron (hd ds)) P + int k * P))
      [0..<Suc ?m] ! k =
      window_record meth ds P (first_window_end (Chron (hd ds)) P + int (0 + k) * P)"
    by (intro nth_map_upt) simp
  then show ?thesis by (simp add: regular_grid_def Let_def)
qed

lemma window_record_Chron: "Chron (window_record meth ds P u) = u"
  by (simp add: window_record_def mk_DataUnit_def Let_def)

lemma regular_grid_spacing:
  assumes "Suc k < length (regular_grid meth ds P)"
  shows "Chron (regular_grid meth ds P ! Suc k) = Chron (regular_grid meth ds P ! k) + P"
proof -
  have "k < length (regular_grid meth ds P)" using assms by simp
  then show ?thesis
    using assms by (simp add: regular_grid_nth window_record_Chron algebra_simps)
qed

lemma regular_grid_first:
  assumes "0 < P" "ds \<noteq> []" "sorted (map Chron ds)"
  shows "hd (regular_grid meth ds P) =
           window_record meth ds P (first_window_end (Chron (hd ds)) P)"
    and "hd ds \<in> set (bucket ds P (first_window_end (Chron (hd ds)) P))"
proof -
  have "regular_grid meth ds P ! 0 =
      window_record meth ds P (first_window_end (Chron (hd ds)) P + int 0 * P)"
    by (rule regular_grid_nth) (simp add: regular_grid_length)
  moreover have "regular_grid meth ds P \<noteq> []"
    using regular_grid_length[of meth ds P] by auto
  ultimately show "hd (regular_grid meth ds P) =
      window_record meth ds P (first_window_end (Chron (hd ds)) P)"
    by (simp add: hd_conv_nth)
  show "hd ds \<in> set (bucket ds P (first_window_end (Chron (hd ds)) P))"
    using first_window_bounds[OF assms(1), of "Chron (hd ds)"] assms(2)
    by (simp add: bucket_def)
qed

lemma regular_grid_last:
  assumes P: "0 < P" and ne: "ds \<noteq> []" and s: "sorted (map Chron ds)"
  shows "last (regular_grid meth ds P) =
           window_record meth ds P (Chron (last (regular_grid meth ds P)))"
    and "last ds \<in> set (bucket ds P (Chron (last (regular_grid meth ds P))))"
proof -
  let ?w0 = "first_window_end (Chron (hd ds)) P"
  let ?x = "Chron (last ds) - ?w0 + P - 1"
  let ?m = "nat (?x div P)"
  have g: "regular_grid meth ds P \<noteq> []"
    using regular_grid_length[of meth ds P] by auto
  have l: "last (regular_grid meth ds P) = window_record meth ds P (?w0 + int ?m * P)"
    using regular_grid_nth[of ?m meth ds P] g
    by (simp add: last_conv_nth regular_grid_length)
  then have c: "Chron (last (regular_grid meth ds P)) = ?w0 + int ?m * P"
    by (simp add: window_record_Chron)
  show "last (regular_grid meth ds P) =
      window_record meth ds P (Chron (last (regular_grid meth ds P)))"
    using l c by simp
  have "Chron (hd ds) \<le> Chron (last ds)"
  proof -
    obtain d ds' where d: "ds = d # ds'" using ne by (cases ds) auto
    show ?thesis
    proof (cases "ds' = []")
      case True
      with d show ?thesis by simp
    next
      case False
      then have "last ds \<in> set ds'" using d by simp
      with s d show ?thesis by auto
    qed
  qed
  then have x: "0 \<le> ?x"
    using first_window_bounds(1)[OF P, of "Chron (hd ds)"] by linarith
  then have "0 \<le> ?x div P" using P by (simp add: pos_imp_zdiv_nonneg_iff)
  then have m: "int ?m = ?x div P" by simp
  have "?x = P * (?x div P) + ?x mod P" by simp
  moreover have "0 \<le> ?x mod P" "?x mod P < P" using P by simp_all
  ultimately have "P * (?x div P) \<le> ?x" "?x < P * (?x div P) + P" by linarith+
  then have "?w0 + int ?m * P - P < Chron (last ds)" "Chron (last ds) \<le> ?w0 + int ?m * P"
    unfolding m by (simp_all add: algebra_simps)
  then show "last ds \<in> set (bucket ds P (Chron (last (regular_grid meth ds P))))"
    using ne by (simp add: c bucket_def)
qed

section \<open>Regularity of the emitted series\<close>

text \<open>
  Claim C2 says that consecutive emitted records are exactly one period apart,
  with a sentinel for every empty window between two consumed records. With a
  positive tolerance the walk breaks this. Two records, 5 and 62 seconds after
  the zero time, a period of 30 seconds and a tolerance of 5000 milliseconds:
  the record at 62 s is accepted for the window ending at 60 s (62 \<le> 60 + 5),
  but the collecting loop compares with the bare end of the window and leaves
  it pending, so that this window emits nothing, neither a value nor a
  sentinel. The output has two records, at 30 s and at 90 s, two periods apart.
\<close>

theorem Regularize_tolerance_skips_window:
  "Regularize \<lparr>Name = ''T'', Comment = [],
        DataSeries = [mk_DataUnit 5000000000 (Fin 1),
                      mk_DataUnit 62000000000 (Fin 3)]\<rparr> 30 ''s'' ''avg'' 5000 =
     Some (Inr \<lparr>Name = [], Comment = [],
                 DataSeries = [mk_DataUnit 30000000000 (Fin 1),
                               mk_DataUnit 90000000000 (Fin 3)]\<rparr>)"
  by (simp add: reg_eval)

text \<open>
  A period of zero is not rejected either: on the same two records the inner
  loop emits sentinels at the same instant for ever, and the call does not
  return.
\<close>

lemma fill_gaps_zero_period:
  assumes "fill_gaps freq per tol t w out = Some r"
  shows "\<not> (AddDurationTol w freq per 0 = w \<and> After t (AddDurationTol w freq per tol))"
  by (rule fill_gaps.raw_induct
        [where P = "\<lambda>freq per tol t w out r.
            \<not> (AddDurationTol w freq per 0 = w \<and> After t (AddDurationTol w freq per tol))",
         OF _ assms])
     (auto simp: Let_def split: if_splits)

lemma Regularize_zero_period_diverges:
  "Regularize \<lparr>Name = ''T'', Comment = [],
        DataSeries = [mk_DataUnit 5000000000 (Fin 1),
                      mk_DataUnit 62000000000 (Fin 3)]\<rparr> 0 ''s'' ''avg'' 0 = None"
proof -
  have "fill_gaps 0 ''s'' 0 62000000000 5000000000 out = None" for out
  proof (cases "fill_gaps 0 ''s'' 0 62000000000 5000000000 out")
    case None
    then show ?thesis .
  next
    case (Some r)
    from fill_gaps_zero_period[OF Some] show ?thesis
      by (simp add: AddDurationTol_def Time_Add_def wrap64_def After_def)
  qed
  then show ?thesis
    by (simp add: Regularize_def normalize_per_def SortChronAsc_def sort_Slice_def
        mk_DataUnit_def RoundedStartTime_def Truncate_def wrap64_def AddDurationTol_def
        AddDuration_def Time_Add_def Let_def After_def regularize_loop_step)
qed

section \<open>Unrecognized aggregation mode\<close>

text \<open>
  Against claim C5: with the aggregation mode \<^verbatim>\<open>median\<close>, which is none of the
  recognized spellings, \<^verbatim>\<open>Regularize\<close> does not fail. On the series of one
  record of value 1, five seconds after the zero time, it returns one record,
  stamped at 30 s, whose value is the placeholder 0.0000000001.
\<close>

theorem Regularize_unknown_mode_counterexample:
  "Regularize \<lparr>Name = ''T'', Comment = [],
        DataSeries = [mk_DataUnit 5000000000 (Fin 1)]\<rparr> 30 ''s'' ''median'' 0 =
     Some (Inr \<lparr>Name = [], Comment = [],
                 DataSeries = [mk_DataUnit 30000000000 (Fin (1 / 10 ^ 10))]\<rparr>)"
  by (simp add: reg_eval)

text \<open>What the default branch of the \<^verbatim>\<open>switch\<close> does to the output.\<close>

lemma aggregate_unrecognized:
  "\<not> recognized_mode meth \<Longrightarrow> aggregate meth local sm = Fin (1 / 10 ^ 10)"
  by (simp add: recognized_mode_def aggregate_def)

lemma fill_gaps_placeholder:
  assumes "fill_gaps freq per tol nxt w out = Some r" and "placeholder_or_NaN out"
  shows "placeholder_or_NaN (snd r)"
proof -
  have "placeholder_or_NaN out \<longrightarrow> placeholder_or_NaN (snd r)"
    by (rule fill_gaps.raw_induct
          [where P = "\<lambda>freq per tol nxt w out r. placeholder_or_NaN out \<longrightarrow> placeholder_or_NaN (snd r)",
           OF _ assms(1)])
       (auto simp: Let_def placeholder_or_NaN_def mk_DataUnit_def split: if_splits)
  with assms(2) show ?thesis by simp
qed

lemma emit_window_placeholder:
  "\<not> recognized_mode meth \<Longrightarrow> placeholder_or_NaN out \<Longrightarrow>
   placeholder_or_NaN (emit_window meth w sm local out)"
  by (simp add: emit_window_def aggregate_unrecognized placeholder_or_NaN_def mk_DataUnit_def)

lemma regularize_loop_placeholder:
  assumes "regularize_loop freq per meth tol pending w out = Some r"
    and "\<not> recognized_mode meth" and "placeholder_or_NaN out"
  shows "placeholder_or_NaN r"
proof -
  have "\<not> recognized_mode meth \<longrightarrow> placeholder_or_NaN out \<longrightarrow> placeholder_or_NaN r"
  proof (rule regularize_loop.raw_induct
          [where P = "\<lambda>freq per meth tol pending w out r.
                        \<not> recognized_mode meth \<longrightarrow> placeholder_or_NaN out \<longrightarrow> placeholder_or_NaN r",
           OF _ assms(1)], intro impI)
    fix rl :: "int \<Rightarrow> string \<Rightarrow> string \<Rightarrow> int \<Rightarrow> DataUnit list \<Rightarrow> Time \<Rightarrow> DataUnit list \<Rightarrow> DataUnit list option"
    fix freq per meth tol pending w out r
    let ?c = "collect w pending (Fin 0) []"
    let ?out = "emit_window meth w (fst ?c) (fst (snd ?c)) out"
    assume IH: "\<And>freq per meth tol pending w out r. rl freq per meth tol pending w out = Some r \<Longrightarrow>
        \<not> recognized_mode meth \<longrightarrow> placeholder_or_NaN out \<longrightarrow> placeholder_or_NaN r"
      and body: "(let c = collect w pending (Fin 0) [];
          out' = emit_window meth w (fst c) (fst (snd c)) out;
          pending' = snd (snd c)
        in if pending' = [] then Some out'
         else Option.bind (fill_gaps freq per tol (Chron (hd pending')) w out')
                (\<lambda>r. rl freq per meth tol pending' (fst r) (snd r))) = Some r"
      and m: "\<not> recognized_mode meth" and p: "placeholder_or_NaN out"
    have o: "placeholder_or_NaN ?out"
      using m p by (rule emit_window_placeholder)
    show "placeholder_or_NaN r"
    proof (cases "snd (snd ?c) = []")
      case True
      with body o show ?thesis by (simp add: Let_def)
    next
      case False
      with body obtain g where
        g: "fill_gaps freq per tol (Chron (hd (snd (snd ?c)))) w ?out = Some g" and
        l: "rl freq per meth tol (snd (snd ?c)) (fst g) (snd g) = Some r"
        by (auto simp: Let_def bind_eq_Some_conv)
      have "placeholder_or_NaN (snd g)"
        using g o by (rule fill_gaps_placeholder)
      with IH[OF l] m show ?thesis by simp
    qed
  qed
  with assms(2,3) show ?thesis by simp
qed

lemma regular_grid_hd_unrecognized:
  assumes "\<not> recognized_mode meth" "0 < P" "ds \<noteq> []" "sorted (map Chron ds)"
  shows "Meas (hd (regular_grid meth ds P)) = Fin (1 / 10 ^ 10)"
proof -
  have "bucket ds P (first_window_end (Chron (hd ds)) P) \<noteq> []"
    using regular_grid_first(2)[OF assms(2-4)] by auto
  then show ?thesis
    by (simp add: regular_grid_first(1)[OF assms(2-4)] window_record_def Let_def
        mk_DataUnit_def aggregate_unrecognized[OF assms(1)])
qed

text \<open>
  Claim C5, amended. When the aggregation mode is none of the recognized
  spellings, \<^verbatim>\<open>Regularize\<close> does not reject it: the only failure it can
  report is the one of an unrecognized period unit; every record of a series
  it returns carries the placeholder 0.0000000001 (a window with records) or
  not-a-number (a sentinel); and with a recognized unit, a positive period,
  tolerance 0 and a non-empty series of strictly increasing timestamps it does
  return a series, whose first record carries the placeholder.
\<close>

theorem Regularize_unknown_mode:
  assumes "\<not> recognized_mode meth"
  shows "(\<forall>f. Regularize ts freq per meth tol = Some (Inl f) \<longrightarrow> normalize_per per = Inl f) \<and>
         (\<forall>out. Regularize ts freq per meth tol = Some (Inr out) \<longrightarrow>
             placeholder_or_NaN (DataSeries out)) \<and>
         (\<forall>u. normalize_per per = Inr u \<and> 0 < period_ns freq u \<and> DataSeries ts \<noteq> [] \<and>
              sorted_wrt (\<lambda>a b. Chron a < Chron b) (DataSeries ts) \<longrightarrow>
              (\<exists>out. Regularize ts freq per meth 0 = Some (Inr out) \<and>
                     DataSeries out \<noteq> [] \<and>
                     Meas (hd (DataSeries out)) = Fin (1 / 10 ^ 10)))"
proof (intro conjI allI impI)
  fix f assume "Regularize ts freq per meth tol = Some (Inl f)"
  then show "normalize_per per = Inl f"
    by (auto simp: Regularize_def Let_def split: sum.splits if_splits)
next
  fix out assume r: "Regularize ts freq per meth tol = Some (Inr out)"
  show "placeholder_or_NaN (DataSeries out)"
  proof (cases "normalize_per per")
    case (Inl f)
    with r show ?thesis by (simp add: Regularize_def)
  next
    case (Inr per')
    show ?thesis
    proof (cases "DataSeries ts = []")
      case True
      with r Inr show ?thesis
        by (auto simp: Regularize_def zero_TimeSeries_def placeholder_or_NaN_def)
    next
      case False
      with r Inr obtain w l where
        l: "regularize_loop freq per' meth tol (DataSeries (SortChronAsc ts)) w [] = Some l"
        and o: "out = AddDataUnit zero_TimeSeries l"
        by (auto simp: Regularize_def Let_def)
      have "placeholder_or_NaN l"
        using l assms by (rule regularize_loop_placeholder) (simp add: placeholder_or_NaN_def)
      then show ?thesis
        by (simp add: o AddDataUnit_def zero_TimeSeries_def)
    qed
  qed
next
  fix u
  assume h: "normalize_per per = Inr u \<and> 0 < period_ns freq u \<and> DataSeries ts \<noteq> [] \<and>
      sorted_wrt (\<lambda>a b. Chron a < Chron b) (DataSeries ts)"
  let ?g = "regular_grid meth (DataSeries ts) (period_ns freq u)"
  have s: "sorted (map Chron (DataSeries ts))"
    using h by (intro increasing_sorted) simp
  have "Regularize ts freq per meth 0 = Some (Inr \<lparr>Name = [], Comment = [], DataSeries = ?g\<rparr>)"
    using h by (intro Regularize_zero_tolerance) simp_all
  moreover have "?g \<noteq> []"
    using regular_grid_length[of meth "DataSeries ts" "period_ns freq u"] by auto
  moreover have "Meas (hd ?g) = Fin (1 / 10 ^ 10)"
    using assms h s by (intro regular_grid_hd_unrecognized) simp_all
  ultimately show "\<exists>out. Regularize ts freq per meth 0 = Some (Inr out) \<and>
      DataSeries out \<noteq> [] \<and> Meas (hd (DataSeries out)) = Fin (1 / 10 ^ 10)"
    by simp
qed

text \<open>
  Two runs with the mode \<^verbatim>\<open>median\<close>: two records 90 seconds apart give two
  placeholders with two sentinels between them; with the unit \<^verbatim>\<open>days\<close> the
  failure is the one of the unit.
\<close>

theorem Regularize_unknown_mode_witness:
  "\<not> recognized_mode ''median'' \<and>
   normalize_per ''s'' = Inr ''s'' \<and> 0 < period_ns 30 ''s'' \<and>
   sorted_wrt (\<lambda>a b. Chron a < Chron b)
     [mk_DataUnit 5000000000 (Fin 1), mk_DataUnit 95000000000 (Fin 7)] \<and>
   Regularize \<lparr>Name = ''T'', Comment = [],
        DataSeries = [mk_DataUnit 5000000000 (Fin 1), mk_DataUnit 95000000000 (Fin 7)]\<rparr>
     30 ''s'' ''median'' 0 =
     Some (Inr \<lparr>Name = [], Comment = [],
                 DataSeries = [mk_DataUnit 30000000000 (Fin (1 / 10 ^ 10)),
                               mk_DataUnit 60000000000 NaN,
                               mk_DataUnit 90000000000 NaN,
                               mk_DataUnit 120000000000 (Fin (1 / 10 ^ 10))]\<rparr>) \<and>
   placeholder_or_NaN
     [mk_DataUnit 30000000000 (Fin (1 / 10 ^ 10)), mk_DataUnit 60000000000 NaN,
      mk_DataUnit 90000000000 NaN, mk_DataUnit 120000000000 (Fin (1 / 10 ^ 10))] \<and>
   Regularize \<lparr>Name = ''T'', Comment = [],
        DataSeries = [mk_DataUnit 5000000000 (Fin 1), mk_DataUnit 95000000000 (Fin 7)]\<rparr>
     30 ''days'' ''median'' 0 = Some (Inl (LogFatal ''period not accepted'')) \<and>
   normalize_per ''days'' = Inl (LogFatal ''period not accepted'')"
  using Regularize_unknown_mode [of "''median''"
      "\<lparr>Name = ''T'', Comment = [],
        DataSeries = [mk_DataUnit 5000000000 (Fin 1), mk_DataUnit 95000000000 (Fin 7)]\<rparr>"
      30 "''s''" 0]
    Regularize_unknown_mode [of "''median''"
      "\<lparr>Name = ''T'', Comment = [],
        DataSeries = [mk_DataUnit 5000000000 (Fin 1), mk_DataUnit 95000000000 (Fin 7)]\<rparr>"
      30 "''days''" 0]
  by (simp add: reg_eval recognized_mode_def placeholder_or_NaN_def period_ns_def)

section \<open>Lookups in the table of critical ratios\<close>

text \<open>
  Claim C7 asks that no lookup leaves the table. \<^verbatim>\<open>Peirce\<close> computes the row
  as \<open>N - 3\<close> and checks nothing: on a single observation the row is \<open>-2\<close>,
  and the lookup panics with an index out of range.
\<close>

theorem Peirce_single_observation_panics:
  "Peirce [Fin 5] = Inl (IndexOutOfRange (- 2) 58)"
  by (simp add: Peirce_def Rtable_def Let_def sort_Slice_def peirce_loop.simps)

text \<open>
  So it is for every sample of fewer than three observations, the empty one
  included, where the row is \<open>-3\<close>.
\<close>

lemma Peirce_small_sample_panics:
  assumes "length data < 3"
  shows "Peirce data = Inl (IndexOutOfRange (int (length data) - 3) 58)"
  using assms by (simp add: Peirce_def Let_def peirce_loop.simps Rtable_def)

lemma Peirce_empty_panics: "Peirce [] = Inl (IndexOutOfRange (- 3) 58)"
  using Peirce_small_sample_panics[of "[]"] by simp

text \<open>
  A row inside the table does not help where its entries are 0. On the three
  observations 0, 0 and 3 the mean is 1 and the standard deviation \<open>sqrt 2\<close>;
  the row is 0, whose only ratio is 1.196. The deviation 2 exceeds
  \<open>1.196 * sqrt 2\<close>; the two deviations 1 exceed the threshold 0 of the second
  and third columns; the loop then reads the fourth element of a slice of
  three.
\<close>

lemma Peirce_three_points_panics:
  "Peirce [Fin 0, Fin 0, Fin 3] = Inl (IndexOutOfRange 3 3)"
proof -
  let ?obs = "[\<lparr>initialplace = 2, dvalue = Fin 2\<rparr>, \<lparr>initialplace = 0, dvalue = Fin 1\<rparr>,
               \<lparr>initialplace = 1, dvalue = Fin 1\<rparr>]"
  have m: "fst (Mean [Fin 0, Fin 0, Fin 3]) = Fin 1"
    by (simp add: Mean_def Sum_go_def float64_of_nat_def)
  have s: "fst (StdDev [Fin 0, Fin 0, Fin 3]) = Fin (sqrt 2)"
    by (simp add: StdDev_def float64_of_nat_def Let_def)
  have srt: "sort_Slice (\<lambda>a b. fgt (dvalue a) (dvalue b))
      (map (\<lambda>(k, v). \<lparr>initialplace = int k, dvalue = fabs (fsub v (Fin 1))\<rparr>)
        (zip [0..<length [Fin 0, Fin 0, Fin 3]] [Fin 0, Fin 0, Fin 3])) = ?obs"
    by (simp add: sort_Slice_def fgt_def upt_conv_Cons)
  have r: "Rtable 0 0 = Inr (Fin 1.196)" "Rtable 0 1 = Inr (Fin 0)" "Rtable 0 2 = Inr (Fin 0)"
    "Rtable 0 3 = Inr (Fin 0)"
    by (simp_all add: Rtable_def Rtable_rows_def)
  have "sqrt 2 < 3 / 2" by (rule real_less_lsqrt) (simp_all add: power2_eq_square)
  then have c0: "fgt (Fin 2) (fmul (Fin (sqrt 2)) (Fin 1.196))"
    by (simp add: fgt_def)
  have l3: "peirce_loop 0 (Fin (sqrt 2)) (Suc (Suc (Suc 0))) ?obs [2, 0, 1] =
      Inl (IndexOutOfRange 3 3)"
    using r(4) by (subst peirce_loop.simps) (simp add: eval_nat_numeral)
  have l2: "peirce_loop 0 (Fin (sqrt 2)) (Suc (Suc 0)) ?obs [2, 0] = Inl (IndexOutOfRange 3 3)"
    using r(3) by (subst peirce_loop.simps) (simp add: fgt_def l3)
  have l1: "peirce_loop 0 (Fin (sqrt 2)) (Suc 0) ?obs [2] = Inl (IndexOutOfRange 3 3)"
    using r(2) by (subst peirce_loop.simps) (simp add: fgt_def l2)
  have l0: "peirce_loop 0 (Fin (sqrt 2)) 0 ?obs [] = Inl (IndexOutOfRange 3 3)"
    using c0 by (subst peirce_loop.simps) (simp add: r l1)
  show ?thesis
    unfolding Peirce_def Let_def m s srt using l0 by simp
qed

section \<open>Peirce's criterion on the sample of the test\<close>

text \<open>
  The mean of the sample is 801/35 and its population variance 2429087/2450,
  so that the standard deviation lies between 31 and 32.
\<close>

lemma sample_mean: "fst (Mean peirce_sample) = Fin (801 / 35)"
  by (simp add: peirce_sample_def Mean_def Sum_go_def float64_of_nat_def)

lemma sample_std: "\<exists>s. fst (StdDev peirce_sample) = Fin s \<and> 31 < s \<and> s < 32"
proof -
  have "fst (StdDev peirce_sample) = Fin (sqrt (2429087 / 2450))"
    by (simp add: peirce_sample_def StdDev_def float64_of_nat_def Let_def power2_eq_square)
  moreover have "31 < sqrt (2429087 / 2450 :: real)"
    by (rule real_less_rsqrt) simp
  moreover have "sqrt (2429087 / 2450 :: real) < 32"
    by (rule real_less_lsqrt) simp_all
  ultimately show ?thesis by blast
qed

lemma sample_sorted:
  "sort_Slice (\<lambda>a b. fgt (dvalue a) (dvalue b))
     (map (\<lambda>(k, v). \<lparr>initialplace = int k, dvalue = fabs (fsub v (Fin (801 / 35)))\<rparr>)
        (zip [0..<length peirce_sample] peirce_sample)) = peirce_sorted"
  by (simp add: peirce_sample_def peirce_sorted_def sort_Slice_def fgt_def upt_conv_Cons)

lemma Rtable_4_0: "Rtable 4 0 = Inr (Fin 1.693)"
  by (simp add: Rtable_def Rtable_rows_def)

lemma Rtable_4_1: "Rtable 4 1 = Inr (Fin 1.382)"
  by (simp add: Rtable_def Rtable_rows_def)

text \<open>
  The loop on the sample: the row is \<open>7 - 3 = 4\<close>. The largest deviation,
  2699/35, exceeds \<open>s * 1.693\<close>; the next one, 486/35, does not exceed
  \<open>s * 1.382\<close>, and the loop stops there.
\<close>

lemma sample_loop:
  assumes "31 < s" "s < 32"
  shows "peirce_loop 4 (Fin s) 0 peirce_sorted [] = Inr [4]"
proof -
  have l: "length peirce_sorted = 7" by (simp add: peirce_sorted_def)
  have n0: "peirce_sorted ! 0 = \<lparr>initialplace = 4, dvalue = Fin (2699 / 35)\<rparr>"
    and n1: "peirce_sorted ! Suc 0 = \<lparr>initialplace = 2, dvalue = Fin (486 / 35)\<rparr>"
    by (simp_all add: peirce_sorted_def)
  have c0: "fgt (Fin (2699 / 35)) (fmul (Fin s) (Fin 1.693))"
    using assms by (simp add: fgt_def)
  have c1: "\<not> fgt (Fin (486 / 35)) (fmul (Fin s) (Fin 1.382))"
    using assms by (simp add: fgt_def)
  have step1: "peirce_loop 4 (Fin s) (Suc 0) peirce_sorted [4] = Inr [4]"
    using c1 by (subst peirce_loop.simps) (simp add: l n1 Rtable_4_1)
  show ?thesis
    using c0 by (subst peirce_loop.simps) (simp add: l n0 Rtable_4_0 step1)
qed

lemma Peirce_sample: "Peirce peirce_sample = Inr [4]"
proof -
  obtain s where s: "fst (StdDev peirce_sample) = Fin s" "31 < s" "s < 32"
    using sample_std by blast
  have n: "length peirce_sample = 7" by (simp add: peirce_sample_def)
  show ?thesis
    unfolding Peirce_def Let_def sample_mean sample_sorted s(1)
    using sample_loop[OF s(2,3)] by (simp add: n)
qed

text \<open>
  Claim C4. On any series of seven records whose values are 10, 11, 9, 10.5,
  100, 9.5 and 10.2, in this order, \<^verbatim>\<open>Peirce\<close> marks position 4 alone, the
  record of value 100, and \<^verbatim>\<open>PeirceOutlierRemoval\<close> returns the six other
  records as kept, in their order, and that record alone as rejected.
\<close>

theorem Peirce_rejects_100:
  assumes ds: "DataSeries ts = [d0, d1, d2, d3, d4, d5, d6]"
    and ms: "map Meas [d0, d1, d2, d3, d4, d5, d6] =
               [Fin 10, Fin 11, Fin 9, Fin 10.5, Fin 100, Fin 9.5, Fin 10.2]"
  shows "Peirce (MeasToArr ts) = Inr [4] \<and>
     PeirceOutlierRemoval ts =
       Inr (\<lparr>Name = [], Comment = [], DataSeries = [d0, d1, d2, d3, d5, d6]\<rparr>,
            \<lparr>Name = [], Comment = [], DataSeries = [d4]\<rparr>)"
proof -
  have m: "MeasToArr ts = peirce_sample"
    using ms by (simp add: MeasToArr_def ds peirce_sample_def)
  have z: "zip [0..<length (DataSeries ts)] (DataSeries ts) =
      [(0, d0), (1, d1), (2, d2), (3, d3), (4, d4), (5, d5), (6, d6)]"
    by (simp add: ds upt_conv_Cons)
  show ?thesis
    by (simp add: PeirceOutlierRemoval_def m Peirce_sample z zero_TimeSeries_def AddDataUnit_def)
qed

text \<open>
  The series of the package's test: one record a minute from 1 January 2025,
  12:00:00 UTC, all of status OK.
\<close>

theorem Peirce_rejects_100_witness:
  "PeirceOutlierRemoval \<lparr>Name = ''T'', Comment = ''fixture'',
      DataSeries = [mk_DataUnit 63871329600000000000 (Fin 10),
                    mk_DataUnit 63871329660000000000 (Fin 11),
                    mk_DataUnit 63871329720000000000 (Fin 9),
                    mk_DataUnit 63871329780000000000 (Fin 10.5),
                    mk_DataUnit 63871329840000000000 (Fin 100),
                    mk_DataUnit 63871329900000000000 (Fin 9.5),
                    mk_DataUnit 63871329960000000000 (Fin 10.2)]\<rparr> =
     Inr (\<lparr>Name = [], Comment = [],
            DataSeries = [mk_DataUnit 63871329600000000000 (Fin 10),
                          mk_DataUnit 63871329660000000000 (Fin 11),
                          mk_DataUnit 63871329720000000000 (Fin 9),
                          mk_DataUnit 63871329780000000000 (Fin 10.5),
                          mk_DataUnit 63871329900000000000 (Fin 9.5),
                          mk_DataUnit 63871329960000000000 (Fin 10.2)]\<rparr>,
          \<lparr>Name = [], Comment = [],
            DataSeries = [mk_DataUnit 63871329840000000000 (Fin 100)]\<rparr>)"
  using Peirce_rejects_100 [of
      "\<lparr>Name = ''T'', Comment = ''fixture'',
      DataSeries = [mk_DataUnit 63871329600000000000 (Fin 10),
                    mk_DataUnit 63871329660000000000 (Fin 11),
                    mk_DataUnit 63871329720000000000 (Fin 9),
                    mk_DataUnit 63871329780000000000 (Fin 10.5),
                    mk_DataUnit 63871329840000000000 (Fin 100),
                    mk_DataUnit 63871329900000000000 (Fin 9.5),
                    mk_DataUnit 63871329960000000000 (Fin 10.2)]\<rparr>"
      "mk_DataUnit 63871329600000000000 (Fin 10)"
      "mk_DataUnit 63871329660000000000 (Fin 11)"
      "mk_DataUnit 63871329720000000000 (Fin 9)"
      "mk_DataUnit 63871329780000000000 (Fin 10.5)"
      "mk_DataUnit 63871329840000000000 (Fin 100)"
      "mk_DataUnit 63871329900000000000 (Fin 9.5)"
      "mk_DataUnit 63871329960000000000 (Fin 10.2)"]
  by (simp add: mk_DataUnit_def)

section \<open>Bound rejection\<close>

text \<open>
  Claim C8 sends every record whose value is not in \<open>[low, high]\<close> to the
  rejected series. A record whose value is not-a-number is in no interval,
  and both comparisons of \<^verbatim>\<open>RemoveOutbounds\<close> are false on it: with the bounds
  0 and 1 it is kept, with status OK, and nothing is rejected.
\<close>

theorem RemoveOutbounds_keeps_NaN:
  "RemoveOutbounds \<lparr>Name = ''T'', Comment = [],
        DataSeries = [\<lparr>Chron = 0, Meas = NaN, Dchron = 0, Dmeas = Fin 0, Status = StMissing\<rparr>]\<rparr>
     (Fin 0) (Fin 1) [] =
   (\<lparr>Name = ''T'', Comment = [],
        DataSeries = [\<lparr>Chron = 0, Meas = NaN, Dchron = 0, Dmeas = Fin 0, Status = StMissing\<rparr>]\<rparr>,
    \<lparr>Name = ''T Cleaned'', Comment = [],
        DataSeries = [\<lparr>Chron = 0, Meas = NaN, Dchron = 0, Dmeas = Fin 0, Status = StOK\<rparr>]\<rparr>,
    \<lparr>Name = ''T Removed'', Comment = [], DataSeries = []\<rparr>)"
  by (simp add: RemoveOutbounds_def SortMeasAsc_def SortChronAsc_def sort_Slice_def
      zero_TimeSeries_def AddDataUnit_def fgt_def)

text \<open>
  What does hold for every series and all bounds: each record goes to exactly
  one of the two outputs, the kept ones with status OK and the rejected ones
  with status Outlier, and the receiver keeps its records. A record is kept
  when neither comparison holds: for numeric bounds, when its value is
  not-a-number or lies in the closed interval.
\<close>

lemma outbounds_loop_eq:
  "outbounds_loop mn mx ds tsout tsrej =
     (AddDataUnit tsout (map (\<lambda>d. d\<lparr>Status := StOK\<rparr>) (filter (within_bounds mn mx) ds)),
      AddDataUnit tsrej (map (\<lambda>d. d\<lparr>Status := StOutlier\<rparr>)
                           (filter (\<lambda>d. \<not> within_bounds mn mx d) ds)))"
  by (induction ds arbitrary: tsout tsrej) (auto simp: within_bounds_def AddDataUnit_def)

lemma within_bounds_numbers:
  "within_bounds (Fin lo) (Fin hi) d \<longleftrightarrow> (case Meas d of NaN \<Rightarrow> True | Fin v \<Rightarrow> lo \<le> v \<and> v \<le> hi)"
  by (cases "Meas d") (auto simp: within_bounds_def fgt_def)

lemma RemoveOutbounds_partition:
  assumes "RemoveOutbounds tsin mn mx comment = (tsin', kept, rej)"
  shows "length (DataSeries kept) + length (DataSeries rej) = length (DataSeries tsin)"
    and "mset (DataSeries kept) =
           image_mset (\<lambda>d. d\<lparr>Status := StOK\<rparr>)
             (filter_mset (within_bounds mn mx) (mset (DataSeries tsin)))"
    and "mset (DataSeries rej) =
           image_mset (\<lambda>d. d\<lparr>Status := StOutlier\<rparr>)
             (filter_mset (\<lambda>d. \<not> within_bounds mn mx d) (mset (DataSeries tsin)))"
    and "mset (DataSeries tsin') = mset (DataSeries tsin)"
proof -
  let ?s = "sort_Slice (\<lambda>a b. flt (Meas a) (Meas b)) (DataSeries tsin)"
  have k: "DataSeries kept = sort_Slice (\<lambda>a b. Chron a < Chron b)
      (map (\<lambda>d. d\<lparr>Status := StOK\<rparr>) (filter (within_bounds mn mx) ?s))"
    and r: "DataSeries rej = sort_Slice (\<lambda>a b. Chron a < Chron b)
      (map (\<lambda>d. d\<lparr>Status := StOutlier\<rparr>) (filter (\<lambda>d. \<not> within_bounds mn mx d) ?s))"
    and t: "DataSeries tsin' = sort_Slice (\<lambda>a b. Chron a < Chron b) ?s"
    using assms
    by (auto simp: RemoveOutbounds_def Let_def outbounds_loop_eq SortMeasAsc_def
        SortChronAsc_def AddDataUnit_def zero_TimeSeries_def)
  have "length (filter (within_bounds mn mx) ?s) +
      length (filter (\<lambda>d. \<not> within_bounds mn mx d) ?s) = length ?s"
    by (rule sum_length_filter_compl)
  then show "length (DataSeries kept) + length (DataSeries rej) = length (DataSeries tsin)"
    by (simp add: k r sort_Slice_length)
  show "mset (DataSeries kept) =
      image_mset (\<lambda>d. d\<lparr>Status := StOK\<rparr>)
        (filter_mset (within_bounds mn mx) (mset (DataSeries tsin)))"
    by (simp add: k sort_Slice_mset)
  show "mset (DataSeries rej) =
      image_mset (\<lambda>d. d\<lparr>Status := StOutlier\<rparr>)
        (filter_mset (\<lambda>d. \<not> within_bounds mn mx d) (mset (DataSeries tsin)))"
    by (simp add: r sort_Slice_mset)
  show "mset (DataSeries tsin') = mset (DataSeries tsin)"
    by (simp add: t sort_Slice_mset)
qed

section \<open>Empty input\<close>

text \<open>
  Claim C9 wants the EmptyInput error from every primitive. \<^verbatim>\<open>StdDev\<close> on the
  empty sequence returns not-a-number with an error made on the spot by
  \<^verbatim>\<open>errors.New("empty slice")\<close>, which is not \<^verbatim>\<open>ErrEmptyInput\<close>.
\<close>

theorem StdDev_empty_not_ErrEmptyInput:
  "StdDev [] = (NaN, Some (ErrorsNew ''empty slice'')) \<and>
   snd (StdDev []) \<noteq> Some ErrEmptyInput"
  by (simp add: StdDev_def)

text \<open>The six other primitives do report \<^verbatim>\<open>ErrEmptyInput\<close>, with not-a-number.\<close>

lemma primitives_empty:
  "Sum_go [] = (NaN, Some ErrEmptyInput)"
  "Mean [] = (NaN, Some ErrEmptyInput)"
  "Min_go [] = (NaN, Some ErrEmptyInput)"
  "Max_go [] = (NaN, Some ErrEmptyInput)"
  "len x = 0 \<Longrightarrow> snd (Median st x) = (NaN, Some ErrEmptyInput)"
  "len x = 0 \<Longrightarrow> snd (Percentile st x p) = (NaN, Some ErrEmptyInput)"
  by (simp_all add: Sum_go_def Mean_def Min_go_def Max_go_def Median_def Percentile_def
      sort_in_place_def sort_Float64s_def Let_def)

section \<open>Sorting of floats\<close>

lemma sort_Float64s_sorted: "sorted (map float_key (sort_Float64s xs))"
  by (simp add: sort_Float64s_def)

lemma sort_Float64s_mset: "mset (sort_Float64s xs) = mset xs"
  by (simp add: sort_Float64s_def)

lemma sort_Float64s_length: "length (sort_Float64s xs) = length xs"
  by (simp add: sort_Float64s_def)

lemma sort_Float64s_id_iff: "sort_Float64s xs = xs \<longleftrightarrow> sorted (map float_key xs)"
proof
  assume "sort_Float64s xs = xs"
  then show "sorted (map float_key xs)"
    using sort_Float64s_sorted[of xs] by simp
next
  assume "sorted (map float_key xs)"
  then show "sort_Float64s xs = xs"
    by (simp add: sort_Float64s_def sort_key_id_if_sorted)
qed

section \<open>Slices in memory\<close>

lemma length_elems: "length (elems st s) = len s"
  by (simp add: elems_def)

lemma elems_nth: "i < len s \<Longrightarrow> elems st s ! i = elem_at st s i"
  by (simp add: elems_def elem_at_def)

lemma elems_write_at: "length xs = len s \<Longrightarrow> elems (write_at st (ptr s) xs) s = xs"
  by (rule nth_equalityI) (simp_all add: elems_def write_at_def)

lemma mem_write_at_outside:
  "\<not> (a \<le> i \<and> i < a + length xs) \<Longrightarrow> mem (write_at st a xs) i = mem st i"
  by (auto simp: write_at_def)

lemma elems_sort_in_place: "elems (sort_in_place st s) s = sort_Float64s (elems st s)"
  unfolding sort_in_place_def
  by (rule elems_write_at) (simp add: sort_Float64s_length length_elems)

lemma mem_sort_in_place_outside:
  "\<not> (ptr s \<le> i \<and> i < ptr s + len s) \<Longrightarrow> mem (sort_in_place st s) i = mem st i"
  unfolding sort_in_place_def
  by (rule mem_write_at_outside) (simp add: sort_Float64s_length length_elems)

lemma elems_outside:
  assumes "\<forall>i. ptr y \<le> i \<and> i < ptr y + len y \<longrightarrow> mem st' i = mem st i"
  shows "elems st' y = elems st y"
  using assms by (simp add: elems_def)

lemma alloc_copy_slice: "snd (alloc_copy st xs) = \<lparr>ptr = next_free st, len = length xs\<rparr>"
  by (simp add: alloc_copy_def)

lemma alloc_copy_elems: "elems (fst (alloc_copy st xs)) (snd (alloc_copy st xs)) = xs"
  unfolding alloc_copy_slice
  by (simp add: alloc_copy_def) (rule elems_write_at[of xs "\<lparr>ptr = next_free st, len = length xs\<rparr>", simplified])

lemma alloc_copy_mem:
  "a < next_free st \<Longrightarrow> mem (fst (alloc_copy st xs)) a = mem st a"
  by (simp add: alloc_copy_def write_at_def)

lemma store_of_elems: "elems (store_of xs) (slice_of xs) = xs"
  unfolding store_of_def slice_of_def by (rule alloc_copy_elems)

lemma slice_of_eq: "slice_of xs = \<lparr>ptr = 0, len = length xs\<rparr>"
  by (simp add: slice_of_def alloc_copy_def empty_store_def)

lemma len_slice_of: "len (slice_of xs) = length xs"
  by (simp add: slice_of_eq)

section \<open>Median and the caller's slice\<close>

lemma Median_store:
  "fst (Median st x) = sort_in_place st x"
  by (simp add: Median_def Let_def)

text \<open>
  Against claim C6: the slice \<open>[3, 1, 2]\<close> holds \<open>[1, 2, 3]\<close> after the call
  of \<^verbatim>\<open>Median\<close>.
\<close>

theorem Median_mutates_counterexample:
  "elems (store_of [Fin 3, Fin 1, Fin 2]) (slice_of [Fin 3, Fin 1, Fin 2]) =
     [Fin 3, Fin 1, Fin 2] \<and>
   elems (fst (Median (store_of [Fin 3, Fin 1, Fin 2]) (slice_of [Fin 3, Fin 1, Fin 2])))
     (slice_of [Fin 3, Fin 1, Fin 2]) = [Fin 1, Fin 2, Fin 3]"
  by (simp add: Median_store elems_sort_in_place store_of_elems sort_Float64s_def)

text \<open>
  Claim C6, amended. \<^verbatim>\<open>Median\<close> sorts the caller's slice in place: after the
  call the slice holds the values it held before, in ascending order
  (not-a-number first), and it is left as it was exactly when it was in
  ascending order already.
\<close>

theorem Median_sorts_in_place:
  "elems (fst (Median st x)) x = sort_Float64s (elems st x) \<and>
   mset (elems (fst (Median st x)) x) = mset (elems st x) \<and>
   sorted (map float_key (elems (fst (Median st x)) x)) \<and>
   (elems (fst (Median st x)) x = elems st x \<longleftrightarrow> sorted (map float_key (elems st x)))"
  by (simp add: Median_store elems_sort_in_place sort_Float64s_sorted sort_Float64s_mset
      sort_Float64s_id_iff)

theorem Median_sorts_in_place_witness:
  "elems (fst (Median (store_of [Fin 3, Fin 1, Fin 2]) (slice_of [Fin 3, Fin 1, Fin 2])))
     (slice_of [Fin 3, Fin 1, Fin 2]) = [Fin 1, Fin 2, Fin 3] \<and>
   elems (fst (Median (store_of [Fin 1, Fin 2, Fin 3]) (slice_of [Fin 1, Fin 2, Fin 3])))
     (slice_of [Fin 1, Fin 2, Fin 3]) = [Fin 1, Fin 2, Fin 3]"
  using Median_sorts_in_place [of "store_of [Fin 3, Fin 1, Fin 2]" "slice_of [Fin 3, Fin 1, Fin 2]"]
    Median_sorts_in_place [of "store_of [Fin 1, Fin 2, Fin 3]" "slice_of [Fin 1, Fin 2, Fin 3]"]
  by (simp add: store_of_elems sort_Float64s_def)

text \<open>
  The memory outside the slice is left alone, so a slice that shares no element
  with \<open>x\<close> is unchanged. A slice that shares elements with \<open>x\<close> is not: a
  sub-slice of \<open>x\<close> shows its part of the sorted sequence, and after
  \<^verbatim>\<open>y := x[:2]\<close> on \<open>x = [3, 1, 2]\<close> the call \<^verbatim>\<open>Median(x)\<close> turns \<open>y\<close> from
  \<open>[3, 1]\<close> into \<open>[1, 2]\<close>.
\<close>

lemma Median_frame:
  "\<not> (ptr x \<le> i \<and> i < ptr x + len x) \<Longrightarrow> mem (fst (Median st x)) i = mem st i"
  unfolding Median_store by (rule mem_sort_in_place_outside)

lemma Median_disjoint_slice:
  assumes "ptr y + len y \<le> ptr x \<or> ptr x + len x \<le> ptr y"
  shows "elems (fst (Median st x)) y = elems st y"
proof (rule elems_outside, intro allI impI)
  fix i assume "ptr y \<le> i \<and> i < ptr y + len y"
  with assms have "\<not> (ptr x \<le> i \<and> i < ptr x + len x)" by auto
  then show "mem (fst (Median st x)) i = mem st i" by (rule Median_frame)
qed

lemma Median_sub_slice:
  assumes "i \<le> j" "j \<le> len x"
  shows "elems (fst (Median st x)) (reslice x i j) =
     take (j - i) (drop i (sort_Float64s (elems st x)))"
proof (rule nth_equalityI)
  show "length (elems (fst (Median st x)) (reslice x i j)) =
      length (take (j - i) (drop i (sort_Float64s (elems st x))))"
    using assms by (simp add: length_elems reslice_def sort_Float64s_length)
next
  fix k assume "k < length (elems (fst (Median st x)) (reslice x i j))"
  then have k: "k < j - i" by (simp add: length_elems reslice_def)
  then have ik: "i + k < len x" using assms by simp
  have "elems (fst (Median st x)) (reslice x i j) ! k = mem (fst (Median st x)) (ptr x + (i + k))"
    using k by (simp add: elems_def reslice_def add.assoc)
  also have "\<dots> = elems (fst (Median st x)) x ! (i + k)"
    using ik by (simp add: elems_def)
  also have "\<dots> = sort_Float64s (elems st x) ! (i + k)"
    by (simp add: Median_store elems_sort_in_place)
  also have "\<dots> = take (j - i) (drop i (sort_Float64s (elems st x))) ! k"
    using k ik by (simp add: sort_Float64s_length length_elems)
  finally show "elems (fst (Median st x)) (reslice x i j) ! k =
      take (j - i) (drop i (sort_Float64s (elems st x))) ! k" .
qed

lemma Median_changes_shared_slice:
  "elems (store_of [Fin 3, Fin 1, Fin 2]) (reslice (slice_of [Fin 3, Fin 1, Fin 2]) 0 2) =
     [Fin 3, Fin 1] \<and>
   elems (fst (Median (store_of [Fin 3, Fin 1, Fin 2]) (slice_of [Fin 3, Fin 1, Fin 2])))
     (reslice (slice_of [Fin 3, Fin 1, Fin 2]) 0 2) = [Fin 1, Fin 2]"
proof
  have "elems (store_of [Fin 3, Fin 1, Fin 2]) (reslice (slice_of [Fin 3, Fin 1, Fin 2]) 0 2) =
      take 2 (elems (store_of [Fin 3, Fin 1, Fin 2]) (slice_of [Fin 3, Fin 1, Fin 2]))"
    by (simp add: elems_def reslice_def slice_of_eq take_map)
  then show "elems (store_of [Fin 3, Fin 1, Fin 2]) (reslice (slice_of [Fin 3, Fin 1, Fin 2]) 0 2) =
      [Fin 3, Fin 1]"
    by (simp add: store_of_elems)
  show "elems (fst (Median (store_of [Fin 3, Fin 1, Fin 2]) (slice_of [Fin 3, Fin 1, Fin 2])))
      (reslice (slice_of [Fin 3, Fin 1, Fin 2]) 0 2) = [Fin 1, Fin 2]"
    by (subst Median_sub_slice) (simp_all add: len_slice_of store_of_elems sort_Float64s_def)
qed

text \<open>The value returned: the middle element, or the mean of the two middle elements.\<close>

lemma Median_result:
  "snd (Median st x) =
     (let l = len x; s = sort_Float64s (elems st x)
      in if l = 0 then (NaN, Some ErrEmptyInput)
         else if l mod 2 = 0 then (fst (Mean (take 2 (drop (l div 2 - 1) s))), None)
         else (s ! (l div 2), None))"
proof -
  have odd: "elem_at (sort_in_place st x) x (len x div 2) =
      sort_Float64s (elems st x) ! (len x div 2)" if "len x \<noteq> 0"
    using that by (simp add: elems_nth[symmetric] elems_sort_in_place)
  have even: "elems (sort_in_place st x) (reslice x (len x div 2 - 1) (len x div 2 + 1)) =
      take 2 (drop (len x div 2 - 1) (sort_Float64s (elems st x)))"
    if "len x \<noteq> 0" "len x mod 2 = 0"
  proof -
    have "2 \<le> len x" using that by presburger
    then have b: "len x div 2 - 1 \<le> len x div 2 + 1" "len x div 2 + 1 \<le> len x"
      "len x div 2 + 1 - (len x div 2 - 1) = 2"
      by simp_all
    show ?thesis
      using Median_sub_slice[OF b(1,2), of st] unfolding b(3) Median_store .
  qed
  show ?thesis
    using odd even by (simp add: Median_def Let_def)
qed

lemma Median_value:
  "snd (Median (store_of [Fin 3, Fin 1, Fin 2]) (slice_of [Fin 3, Fin 1, Fin 2])) = (Fin 2, None)"
  "snd (Median (store_of [Fin 4, Fin 1, Fin 3, Fin 2]) (slice_of [Fin 4, Fin 1, Fin 3, Fin 2])) =
     (Fin (5 / 2), None)"
  by (simp_all add: Median_result store_of_elems Let_def sort_Float64s_def len_slice_of
      Mean_def Sum_go_def float64_of_nat_def)

section \<open>Rounding to the nearest float\<close>

lemma pow2_pos: "0 < pow2 e"
  by (simp add: pow2_def)

lemma pow2_Suc: "pow2 (e + 1) = 2 * pow2 e"
proof (cases "0 \<le> e")
  case True
  then show ?thesis by (simp add: pow2_def nat_add_distrib)
next
  case False
  then have "nat (- e) = Suc (nat (- (e + 1)))" by simp
  then show ?thesis using False by (simp add: pow2_def)
qed

lemma expo_ge_bounds:
  "1 \<le> x \<Longrightarrow> pow2 (expo_ge x) \<le> x \<and> x < pow2 (expo_ge x + 1)"
proof (induction x rule: expo_ge.induct)
  case (1 x)
  show ?case
  proof (cases "x < 2")
    case True
    then have "expo_ge x = 0" by (subst expo_ge.simps) simp
    then show ?thesis using 1(2) True by (simp add: pow2_def)
  next
    case False
    define e where "e = expo_ge (x / 2)"
    have x: "expo_ge x = e + 1"
      using False by (subst expo_ge.simps) (simp add: e_def)
    have "pow2 e \<le> x / 2 \<and> x / 2 < pow2 (e + 1)"
      using 1(1) False by (simp add: e_def)
    then have "2 * pow2 e \<le> x \<and> x < 2 * pow2 (e + 1)" by simp
    then show ?thesis unfolding x pow2_Suc[of "e + 1"] pow2_Suc[of e] by simp
  qed
qed

lemma expo_lt_bounds:
  "0 < x \<Longrightarrow> x < 1 \<Longrightarrow> pow2 (expo_lt x) \<le> x \<and> x < pow2 (expo_lt x + 1)"
proof (induction x rule: expo_lt.induct)
  case (1 x)
  define e where "e = expo_lt (2 * x)"
  have x: "expo_lt x = e - 1"
    using 1(2,3) by (subst expo_lt.simps) (simp add: e_def)
  have p: "pow2 e = 2 * pow2 (e - 1)" "pow2 (e - 1 + 1) = pow2 e" "pow2 (e + 1) = 2 * pow2 e"
    using pow2_Suc[of "e - 1"] pow2_Suc[of e] by simp_all
  have "pow2 e \<le> 2 * x \<and> 2 * x < pow2 (e + 1)"
  proof (cases "2 * x < 1")
    case True
    then show ?thesis using 1 by (simp add: e_def)
  next
    case False
    then have "e = 0" unfolding e_def by (subst expo_lt.simps) simp
    then show ?thesis using 1(3) False by (simp add: pow2_def)
  qed
  then have "pow2 (e - 1) \<le> x \<and> x < pow2 e"
    unfolding p(3) unfolding p(1) by simp
  then show ?case unfolding x p(2) .
qed

lemma expo_bounds:
  "0 < x \<Longrightarrow> pow2 (expo x) \<le> x \<and> x < pow2 (expo x + 1)"
  using expo_ge_bounds[of x] expo_lt_bounds[of x] by (simp add: expo_def)

lemma round_even_error: "\<bar>of_int (round_even r) - r\<bar> \<le> 1 / 2"
  unfolding round_even_def Let_def by (auto; linarith)

lemma round64_error:
  "\<bar>round64 x - x\<bar> \<le> pow2 (max (expo \<bar>x\<bar> - 52) (- 1074)) / 2"
proof (cases "x = 0")
  case True
  then show ?thesis using pow2_pos[of "max (expo \<bar>x\<bar> - 52) (- 1074)"] by (simp add: round64_def)
next
  case False
  define u where "u = pow2 (max (expo \<bar>x\<bar> - 52) (- 1074))"
  have u: "0 < u" by (simp add: u_def pow2_pos)
  have "round64 x - x = (of_int (round_even (x / u)) - x / u) * u"
    using False u by (simp add: round64_def Let_def u_def[symmetric] algebra_simps)
  then have "\<bar>round64 x - x\<bar> = \<bar>of_int (round_even (x / u)) - x / u\<bar> * u"
    using u by (simp add: abs_mult)
  also have "\<dots> \<le> 1 / 2 * u"
    using round_even_error[of "x / u"] u by (intro mult_right_mono) simp_all
  finally show ?thesis by (simp add: u_def)
qed

lemma pow2_powi: "pow2 e = 2 powi e"
  by (simp add: pow2_def power_int_def field_simps)

lemma pow2_mono: "a \<le> b \<Longrightarrow> pow2 a \<le> pow2 b"
  unfolding pow2_powi by (rule power_int_increasing) simp_all

lemma expo_unique:
  assumes "pow2 b \<le> x" "x < pow2 (b + 1)"
  shows "expo x = b"
proof -
  have "0 < x" using assms(1) pow2_pos[of b] by simp
  then have e: "pow2 (expo x) \<le> x" "x < pow2 (expo x + 1)"
    using expo_bounds[of x] by simp_all
  have "\<not> expo x < b"
  proof
    assume "expo x < b"
    then have "pow2 (expo x + 1) \<le> pow2 b" by (intro pow2_mono) simp
    with e(2) assms(1) show False by simp
  qed
  moreover have "\<not> b < expo x"
  proof
    assume "b < expo x"
    then have "pow2 (b + 1) \<le> pow2 (expo x)" by (intro pow2_mono) simp
    with e(1) assms(2) show False by simp
  qed
  ultimately show ?thesis by simp
qed

lemma round_even_of_int: "round_even (of_int m) = m"
  by (simp add: round_even_def)

text \<open>
  A \<^verbatim>\<open>float64\<close> is a number \<open>m * 2 ^ e\<close> with a mantissa \<open>m\<close> of 53
  bits and \<open>e\<close> not below \<open>-1074\<close>; rounding leaves it as it is.
\<close>

lemma round64_float:
  assumes "2 ^ 52 \<le> \<bar>m\<bar>" "\<bar>m\<bar> < 2 ^ 53" "- 1074 \<le> e"
  shows "round64 (of_int m * pow2 e) = of_int m * pow2 e"
proof -
  have "(of_int (2 ^ 52) :: real) \<le> of_int \<bar>m\<bar>" "(of_int \<bar>m\<bar> :: real) < of_int (2 ^ 53)"
    using assms(1,2) by (simp_all only: of_int_le_iff of_int_less_iff)
  then have m: "(2::real) ^ 52 \<le> \<bar>of_int m\<bar>" "\<bar>of_int m :: real\<bar> < 2 ^ 53"
    by simp_all
  have a: "\<bar>of_int m * pow2 e\<bar> = \<bar>of_int m\<bar> * pow2 e"
    using pow2_pos[of e] by (simp add: abs_mult)
  have p: "pow2 (e + 52) = 2 ^ 52 * pow2 e" "pow2 (e + 52 + 1) = 2 ^ 53 * pow2 e"
    unfolding pow2_powi using power_int_add[of "2::real" e 52] power_int_add[of "2::real" e 53]
    by (simp_all add: mult.commute add.assoc)
  have "expo \<bar>of_int m * pow2 e\<bar> = e + 52"
    unfolding a
  proof (rule expo_unique)
    show "pow2 (e + 52) \<le> \<bar>of_int m\<bar> * pow2 e"
      unfolding p using m(1) pow2_pos[of e] by simp
    show "\<bar>of_int m\<bar> * pow2 e < pow2 (e + 52 + 1)"
      unfolding p using m(2) pow2_pos[of e] by simp
  qed
  moreover have "of_int m * pow2 e \<noteq> 0"
    using m(1) pow2_pos[of e] by auto
  ultimately show ?thesis
    using assms(3) pow2_pos[of e] by (simp add: round64_def Let_def round_even_of_int)
qed

section \<open>Percentile\<close>

lemma Percentile_mem:
  "a < next_free st \<Longrightarrow> mem (fst (Percentile st x p)) a = mem st a"
proof -
  assume a: "a < next_free st"
  have "mem (sort_in_place (fst (alloc_copy st xs)) (snd (alloc_copy st xs))) a = mem st a" for xs
    using a by (simp add: mem_sort_in_place_outside alloc_copy_slice alloc_copy_mem)
  then show ?thesis
    by (simp add: Percentile_def Let_def case_prod_beta)
qed

text \<open>
  Claim C10. \<^verbatim>\<open>Percentile\<close> leaves the caller's slice \<open>x\<close>, and all the
  memory allocated before the call, as it was, for every \<open>p\<close>: it sorts a
  copy that it allocates. \<^verbatim>\<open>Median\<close>, in contrast, sorts the slice it is
  given.
\<close>

theorem Percentile_keeps_input:
  assumes "ptr x + len x \<le> next_free st"
  shows "elems (fst (Percentile st x p)) x = elems st x \<and>
     (\<forall>a < next_free st. mem (fst (Percentile st x p)) a = mem st a) \<and>
     elems (fst (Median st x)) x = sort_Float64s (elems st x)"
proof (intro conjI allI impI)
  show "elems (fst (Percentile st x p)) x = elems st x"
    using assms by (intro elems_outside allI impI Percentile_mem) simp
  show "mem (fst (Percentile st x p)) a = mem st a" if "a < next_free st" for a
    using that by (rule Percentile_mem)
  show "elems (fst (Median st x)) x = sort_Float64s (elems st x)"
    by (simp add: Median_store elems_sort_in_place)
qed

theorem Percentile_keeps_input_witness:
  "ptr (slice_of [Fin 30, Fin 10, Fin 20]) + len (slice_of [Fin 30, Fin 10, Fin 20])
     \<le> next_free (store_of [Fin 30, Fin 10, Fin 20]) \<and>
   elems (fst (Percentile (store_of [Fin 30, Fin 10, Fin 20]) (slice_of [Fin 30, Fin 10, Fin 20])
     (Fin 50))) (slice_of [Fin 30, Fin 10, Fin 20]) = [Fin 30, Fin 10, Fin 20] \<and>
   elems (fst (Median (store_of [Fin 30, Fin 10, Fin 20]) (slice_of [Fin 30, Fin 10, Fin 20])))
     (slice_of [Fin 30, Fin 10, Fin 20]) = [Fin 10, Fin 20, Fin 30]"
  using Percentile_keeps_input [of "slice_of [Fin 30, Fin 10, Fin 20]"
      "store_of [Fin 30, Fin 10, Fin 20]" "Fin 50"]
  by (simp add: store_of_elems sort_Float64s_def)
    (simp add: slice_of_eq store_of_def alloc_copy_def empty_store_def write_at_def)

text \<open>
  The value returned, for a non-empty slice and a \<open>p\<close> that passes the guard:
  the element of the ascending copy at the rank computed in \<^verbatim>\<open>float64\<close>.
\<close>

lemma Percentile_result:
  assumes "len x \<noteq> 0" "\<not> fle p (Fin 0)" "\<not> fgt p (Fin 100)"
  shows "snd (Percentile st x p) =
     (let n = len x; cp = sort_Float64s (elems st x);
          k = int_floor (r64 (fmul (r64 (fdiv p (Fin 100))) (float64_of_nat n)))
      in if k < 1 then (cp ! 0, None)
         else if k \<ge> int n then (cp ! (n - 1), None)
         else (cp ! nat (k - 1), None))"
proof -
  let ?st1 = "fst (alloc_copy st (elems st x))"
  let ?cp = "snd (alloc_copy st (elems st x))"
  have l: "len ?cp = len x"
    by (simp add: alloc_copy_slice length_elems)
  have e: "elems (sort_in_place ?st1 ?cp) ?cp = sort_Float64s (elems st x)"
    by (simp add: elems_sort_in_place alloc_copy_elems)
  have n: "elem_at (sort_in_place ?st1 ?cp) ?cp i = sort_Float64s (elems st x) ! i"
    if "i < len x" for i
    using that elems_nth[of i ?cp "sort_in_place ?st1 ?cp"] by (simp add: l e)
  have i: "0 < len x" "len x - 1 < len x" "nat (k - 1) < len x" if "\<not> k \<ge> int (len x)" for k
    using assms(1) that by simp_all
  show ?thesis
    using assms(1) n by (simp add: Percentile_def Let_def case_prod_beta assms(2,3))
qed

lemma Percentile_NaN_parameter:
  "len x \<noteq> 0 \<Longrightarrow> snd (Percentile st x NaN) = (sort_Float64s (elems st x) ! 0, None)"
  by (simp add: Percentile_result fgt_def Let_def)

text \<open>
  Claim C3 asks that a \<open>p\<close> outside \<open>(0, 100]\<close> fails. \<^verbatim>\<open>Percentile\<close> tests
  \<^verbatim>\<open>p <= 0 || p > 100\<close>; both comparisons are false on not-a-number, so
  it passes the guard, its rank is below 1, and on \<open>[10, 20, 30, 40, 50]\<close>
  the smallest element is returned, with no error.
\<close>

theorem Percentile_accepts_NaN:
  "snd (Percentile (store_of [Fin 10, Fin 20, Fin 30, Fin 40, Fin 50])
          (slice_of [Fin 10, Fin 20, Fin 30, Fin 40, Fin 50]) NaN) = (Fin 10, None)"
  by (simp add: Percentile_NaN_parameter len_slice_of store_of_elems sort_Float64s_def)

text \<open>
  For a number \<open>p\<close> the guard is the one of the claim, and the two values
  that the claim gives on \<open>[10, 20, 30, 40, 50]\<close> are returned.
\<close>

lemma Percentile_out_of_bounds:
  assumes "len x \<noteq> 0" "\<not> (0 < p \<and> p \<le> 100)"
  shows "snd (Percentile st x (Fin p)) = (NaN, Some ErrBounds)"
  using assms by (auto simp: Percentile_def Let_def fgt_def)

lemma Percentile_rank:
  assumes "len x \<noteq> 0" "0 < p" "p \<le> 100"
  shows "snd (Percentile st x (Fin p)) =
     (sort_Float64s (elems st x) !
        nat (max 0 (min (int (len x) - 1)
                        (\<lfloor>round64 (round64 (p / 100) * real (len x))\<rfloor> - 1))), None)"
proof -
  have g: "\<not> fle (Fin p) (Fin 0)" "\<not> fgt (Fin p) (Fin 100)"
    using assms(2,3) by (simp_all add: fgt_def)
  have idx: "(if k < 1 then 0 else if k \<ge> int (len x) then len x - 1 else nat (k - 1)) =
      nat (max 0 (min (int (len x) - 1) (k - 1)))" for k :: int
    using assms(1) by (auto simp: max_def min_def)
  have "snd (Percentile st x (Fin p)) =
      (sort_Float64s (elems st x) !
         (if \<lfloor>round64 (round64 (p / 100) * real (len x))\<rfloor> < 1 then 0
          else if \<lfloor>round64 (round64 (p / 100) * real (len x))\<rfloor> \<ge> int (len x) then len x - 1
          else nat (\<lfloor>round64 (round64 (p / 100) * real (len x))\<rfloor> - 1)), None)"
    unfolding Percentile_result[OF assms(1) g] Let_def by (simp add: float64_of_nat_def)
  then show ?thesis unfolding idx .
qed

lemma round64_half: "round64 (50 / 100) = 1 / 2"
  by (simp add: round64_def expo_def expo_lt.simps pow2_def round_even_def Let_def)

lemma round64_five_halves: "round64 (1 / 2 * 5) = 5 / 2"
  by (simp add: round64_def expo_def expo_ge.simps pow2_def round_even_def Let_def)

lemma round64_99: "round64 (99 / 100) = 8917127262193582 / 2 ^ 53"
  by (simp add: round64_def expo_def expo_lt.simps pow2_def round_even_def Let_def)

lemma round64_99_5: "round64 (8917127262193582 / 2 ^ 53 * 5) = 5573204538870989 / 2 ^ 50"
  by (simp add: round64_def expo_def expo_ge.simps pow2_def round_even_def Let_def)

lemma Percentile_examples:
  assumes "elems st x = [Fin 10, Fin 20, Fin 30, Fin 40, Fin 50]"
  shows "snd (Percentile st x (Fin 50)) = (Fin 20, None)"
    and "snd (Percentile st x (Fin 99)) = (Fin 40, None)"
proof -
  have l: "len x = 5" using length_elems[of st x] assms by simp
  have s: "sort_Float64s (elems st x) = [Fin 10, Fin 20, Fin 30, Fin 40, Fin 50]"
    by (simp add: assms sort_Float64s_def)
  have k50: "\<lfloor>round64 (round64 (50 / 100) * 5)\<rfloor> = 2"
    unfolding round64_half round64_five_halves by simp
  have k99: "\<lfloor>round64 (round64 (99 / 100) * 5)\<rfloor> = 4"
    unfolding round64_99 round64_99_5 by simp
  show "snd (Percentile st x (Fin 50)) = (Fin 20, None)"
    using Percentile_rank[of x 50 st] k50 by (simp add: l s)
  show "snd (Percentile st x (Fin 99)) = (Fin 40, None)"
    using Percentile_rank[of x 99 st] k99 by (simp add: l s)
qed

text \<open>
  The rank is the floor of a product computed in \<^verbatim>\<open>float64\<close>, not of the
  real product. For \<open>p = 58\<close> on fifty elements the real product is 29; 58/100
  rounds below 0.58, the product rounds to 28.999999999999996, and the rank is
  28: on the elements 1 to 50 the value returned is 28.
\<close>

lemma round64_58: "round64 (58 / 100) = 5224175567749775 / 2 ^ 53"
  by (simp add: round64_def expo_def expo_lt.simps pow2_def round_even_def Let_def)

lemma round64_58_50: "round64 (5224175567749775 / 2 ^ 53 * 50) = 8162774324609023 / 2 ^ 48"
  by (simp add: round64_def expo_def expo_ge.simps pow2_def round_even_def Let_def)

lemma Percentile_rounded_rank:
  assumes "elems st x = map (\<lambda>i. Fin (real i)) [1..<51]"
  shows "snd (Percentile st x (Fin 58)) = (Fin 28, None)"
    and "\<lfloor>58 / 100 * real (len x)\<rfloor> = 29"
proof -
  have l: "len x = 50" using length_elems[of st x] assms by simp
  have "sorted (map float_key (elems st x))"
    unfolding assms by (simp add: comp_def sorted_map)
  then have s: "sort_Float64s (elems st x) = map (\<lambda>i. Fin (real i)) [1..<51]"
    using assms by (simp add: sort_Float64s_id_iff)
  have k: "\<lfloor>round64 (round64 (58 / 100) * 50)\<rfloor> = 28"
    unfolding round64_58 round64_58_50 by simp
  show "snd (Percentile st x (Fin 58)) = (Fin 28, None)"
    using Percentile_rank[of x 58 st] k by (simp add: l s)
  show "\<lfloor>58 / 100 * real (len x)\<rfloor> = 29"
    by (simp add: l)
qed

end
